theory Spec2Isabelle
  imports Complex_Main "HOL-Library.List_Lexorder" "HOL-Library.Char_ord" "HOL-Library.AList"
begin

section \<open>Strings and JavaScript values\<close>

text \<open>
  Strings are lists of characters, compared lexicographically as JavaScript compares
  strings code unit by code unit. The white space of \<open>trim\<close> and of the regular
  expression class \<open>\s\<close> is modelled by its ASCII members.
\<close>

definition isDigit :: "char \<Rightarrow> bool" where
  "isDigit c = (c \<in> set ''0123456789'')"

definition isAlpha :: "char \<Rightarrow> bool" where
  "isAlpha c =
     (c \<in> set ''abcdefghijklmnopqrstuvwxyz'' \<or> c \<in> set ''ABCDEFGHIJKLMNOPQRSTUVWXYZ'')"

definition isSpace :: "char \<Rightarrow> bool" where
  "isSpace c = (c \<in> set [CHR 0x09, CHR 0x0A, CHR 0x0B, CHR 0x0C, CHR 0x0D, CHR '' ''])"

definition trim :: "string \<Rightarrow> string" where
  "trim s = rev (dropWhile isSpace (rev (dropWhile isSpace s)))"

definition toLowerCase :: "string \<Rightarrow> string" where
  "toLowerCase s =
     map (\<lambda>c. case map_of (zip ''ABCDEFGHIJKLMNOPQRSTUVWXYZ'' ''abcdefghijklmnopqrstuvwxyz'') c of
                 Some l \<Rightarrow> l | None \<Rightarrow> c) s"

text \<open>\<open>s.split(c)\<close> for a one-character separator, and \<open>parts.join(sep)\<close>.\<close>

fun split :: "char \<Rightarrow> string \<Rightarrow> string list" where
  "split c [] = [[]]"
| "split c (x # xs) =
     (if x = c then [] # split c xs
      else (case split c xs of [] \<Rightarrow> [[x]] | p # ps \<Rightarrow> (x # p) # ps))"

fun join :: "string \<Rightarrow> string list \<Rightarrow> string" where
  "join sep [] = []"
| "join sep [p] = p"
| "join sep (p # q # ps) = p @ sep @ join sep (q # ps)"

definition digitVal :: "char \<Rightarrow> nat" where
  "digitVal c = of_char c - 48"

text \<open>\<open>Number(s)\<close> on a string of decimal digits, as the regular expressions capture them.\<close>

definition digitsToNat :: "string \<Rightarrow> nat" where
  "digitsToNat s = foldl (\<lambda>n c. 10 * n + digitVal c) 0 s"

fun showNat :: "nat \<Rightarrow> string" where
  "showNat n =
     (if n < 10 then [char_of (48 + n)] else showNat (n div 10) @ [char_of (48 + n mod 10)])"

definition showInt :: "int \<Rightarrow> string" where
  "showInt i = (if i < 0 then CHR ''-'' # showNat (nat (- i)) else showNat (nat i))"

definition padStart :: "nat \<Rightarrow> string \<Rightarrow> string" where
  "padStart n s = replicate (n - length s) CHR ''0'' @ s"

definition pad2 :: "int \<Rightarrow> string" where
  "pad2 n = padStart 2 (showInt n)"

text \<open>
  A JavaScript number is a double: a finite value, held as the real it denotes, or one
  of NaN and the two infinities. A field of a row holds a number, \<open>null\<close> or is missing
  (\<open>undefined\<close>).
\<close>

datatype jsnum = Fin real | NaN | PosInf | NegInf

datatype jsval = JUndefined | JNull | JNum jsnum

fun toNumber :: "jsval \<Rightarrow> jsnum" where
  "toNumber JUndefined = NaN"
| "toNumber JNull = Fin 0"
| "toNumber (JNum n) = n"

fun numIsFinite :: "jsnum \<Rightarrow> bool" where
  "numIsFinite (Fin x) = True"
| "numIsFinite _ = False"

text \<open>\<open>Number.isFinite(v)\<close>: true only for a value that already is a finite number.\<close>

fun isFiniteVal :: "jsval \<Rightarrow> bool" where
  "isFiniteVal (JNum n) = numIsFinite n"
| "isFiniteVal _ = False"

fun finVal :: "jsnum \<Rightarrow> real" where
  "finVal (Fin x) = x"
| "finVal _ = 0"

record error =
  code :: string
  message :: string
  rowIndex :: "nat option"
  badValue :: "string option"
  field :: "string option"
  listed :: "string list"

definition makeError :: "string \<Rightarrow> string \<Rightarrow> nat option \<Rightarrow> string option \<Rightarrow> error" where
  "makeError c m i v =
     \<lparr>code = c, message = m, rowIndex = i, badValue = v, field = None, listed = []\<rparr>"

section \<open>Double-precision arithmetic\<close>

text \<open>
  The binary exponent of a positive real \<open>a\<close>: the \<open>e\<close> with \<open>2 ^ e \<le> a < 2 ^ (e + 1)\<close>.
\<close>

function binExp :: "real \<Rightarrow> int" where
  "binExp a =
     (if 2 \<le> a then binExp (a / 2) + 1
      else if 0 < a \<and> a < 1 then binExp (2 * a) - 1
      else 0)"
  by pat_completeness auto
termination
proof (relation "measure (\<lambda>a. if 1 \<le> a then nat \<lfloor>log 2 a\<rfloor> else nat \<lceil>- log 2 a\<rceil>)")
  show "wf (measure (\<lambda>a. if 1 \<le> a then nat \<lfloor>log 2 a\<rfloor> else nat \<lceil>- log 2 a\<rceil>))"
    by simp
next
  fix a :: real
  assume a: "2 \<le> a"
  then have "log 2 (a / 2) = log 2 a - 1"
    by (simp add: log_divide)
  moreover from a have "1 \<le> log 2 a"
    by (simp add: le_log_iff)
  ultimately show "(a / 2, a) \<in> measure (\<lambda>a. if 1 \<le> a then nat \<lfloor>log 2 a\<rfloor> else nat \<lceil>- log 2 a\<rceil>)"
    using a by (auto simp: le_floor_iff)
next
  fix a :: real
  assume a: "\<not> 2 \<le> a" "0 < a \<and> a < 1"
  then have l: "log 2 (2 * a) = 1 + log 2 a"
    by (simp add: log_mult)
  from a have n: "log 2 a < 0"
    by simp
  show "(2 * a, a) \<in> measure (\<lambda>a. if 1 \<le> a then nat \<lfloor>log 2 a\<rfloor> else nat \<lceil>- log 2 a\<rceil>)"
  proof (cases "1 \<le> 2 * a")
    case True
    with a have "log 2 (2 * a) < 1"
      by (simp add: log_less_iff)
    moreover from True a have "0 \<le> log 2 (2 * a)"
      by (simp add: le_log_iff)
    ultimately have "\<lfloor>log 2 (2 * a)\<rfloor> = 0"
      by linarith
    moreover from n have "0 < \<lceil>- log 2 a\<rceil>"
      by (simp add: less_ceiling_iff)
    ultimately show ?thesis
      using True a by auto
  next
    case False
    have "\<lceil>- log 2 (2 * a)\<rceil> = \<lceil>- log 2 a\<rceil> - 1"
      unfolding l by linarith
    moreover from False a have "log 2 (2 * a) < 0"
      by simp
    then have "0 < \<lceil>- log 2 (2 * a)\<rceil>"
      by (simp add: less_ceiling_iff)
    ultimately show ?thesis
      using False a by auto
  qed
qed

declare binExp.simps [simp del]

definition pow2 :: "int \<Rightarrow> real" where
  "pow2 k = (if 0 \<le> k then 2 ^ nat k else 1 / 2 ^ nat (- k))"

text \<open>The nearest integer, a half going to the even neighbour.\<close>

definition roundHalfEven :: "real \<Rightarrow> int" where
  "roundHalfEven q =
     (let f = \<lfloor>q\<rfloor>; d = q - of_int f
      in if d < 1 / 2 then f else if 1 / 2 < d then f + 1 else if even f then f else f + 1)"

definition infOfSign :: "bool \<Rightarrow> jsnum" where
  "infOfSign positive = (if positive then PosInf else NegInf)"

text \<open>
  The double of a real, as IEEE 754 rounds to nearest with ties to even: a double is a
  multiple \<open>n * 2 ^ (e - 52)\<close> with \<open>n\<close> below \<open>2 ^ 53\<close> and \<open>e\<close> from -1022 (the
  subnormal spacing) to 1023; a magnitude that rounds beyond the largest double is an
  infinity, and one that rounds below the least is zero.
\<close>

definition toDouble :: "real \<Rightarrow> jsnum" where
  "toDouble x =
     (if x = 0 then Fin 0
      else
        let e = max (binExp \<bar>x\<bar>) (- 1022);
            n = roundHalfEven (\<bar>x\<bar> / pow2 (e - 52))
        in if 1024 \<le> e \<or> (e = 1023 \<and> 2 ^ 53 \<le> n) then infOfSign (0 < x)
           else Fin (sgn x * of_int n * pow2 (e - 52)))"

text \<open>
  Arithmetic on numbers: the exact result of an operation on finite values is rounded
  to its double; NaN and the infinities behave as in JavaScript. The sign of zero is
  not kept: the code under study divides by array lengths, by constants, and by an
  average and a square root that it has tested against zero before.
\<close>

fun jsNeg :: "jsnum \<Rightarrow> jsnum" where
  "jsNeg (Fin x) = Fin (- x)"
| "jsNeg NaN = NaN"
| "jsNeg PosInf = NegInf"
| "jsNeg NegInf = PosInf"

fun jsAdd :: "jsnum \<Rightarrow> jsnum \<Rightarrow> jsnum" where
  "jsAdd (Fin a) (Fin b) = toDouble (a + b)"
| "jsAdd NaN _ = NaN"
| "jsAdd _ NaN = NaN"
| "jsAdd PosInf NegInf = NaN"
| "jsAdd NegInf PosInf = NaN"
| "jsAdd PosInf _ = PosInf"
| "jsAdd _ PosInf = PosInf"
| "jsAdd NegInf _ = NegInf"
| "jsAdd _ NegInf = NegInf"

definition jsSub :: "jsnum \<Rightarrow> jsnum \<Rightarrow> jsnum" where
  "jsSub a b = jsAdd a (jsNeg b)"

fun jsMul :: "jsnum \<Rightarrow> jsnum \<Rightarrow> jsnum" where
  "jsMul (Fin a) (Fin b) = toDouble (a * b)"
| "jsMul NaN _ = NaN"
| "jsMul _ NaN = NaN"
| "jsMul (Fin a) PosInf = (if a = 0 then NaN else infOfSign (0 < a))"
| "jsMul (Fin a) NegInf = (if a = 0 then NaN else infOfSign (a < 0))"
| "jsMul PosInf (Fin b) = (if b = 0 then NaN else infOfSign (0 < b))"
| "jsMul NegInf (Fin b) = (if b = 0 then NaN else infOfSign (b < 0))"
| "jsMul PosInf PosInf = PosInf"
| "jsMul NegInf NegInf = PosInf"
| "jsMul PosInf NegInf = NegInf"
| "jsMul NegInf PosInf = NegInf"

fun jsDiv :: "jsnum \<Rightarrow> jsnum \<Rightarrow> jsnum" where
  "jsDiv (Fin a) (Fin b) =
     (if b = 0 then (if a = 0 then NaN else infOfSign (0 < a)) else toDouble (a / b))"
| "jsDiv NaN _ = NaN"
| "jsDiv _ NaN = NaN"
| "jsDiv (Fin a) PosInf = Fin 0"
| "jsDiv (Fin a) NegInf = Fin 0"
| "jsDiv PosInf (Fin b) = infOfSign (0 \<le> b)"
| "jsDiv NegInf (Fin b) = infOfSign (b < 0)"
| "jsDiv PosInf PosInf = NaN"
| "jsDiv PosInf NegInf = NaN"
| "jsDiv NegInf PosInf = NaN"
| "jsDiv NegInf NegInf = NaN"

fun jsLess :: "jsnum \<Rightarrow> jsnum \<Rightarrow> bool" where
  "jsLess (Fin a) (Fin b) = (a < b)"
| "jsLess NaN _ = False"
| "jsLess _ NaN = False"
| "jsLess PosInf _ = False"
| "jsLess _ NegInf = False"
| "jsLess NegInf _ = True"
| "jsLess _ PosInf = True"

definition jsGreater :: "jsnum \<Rightarrow> jsnum \<Rightarrow> bool" where
  "jsGreater a b = jsLess b a"

fun jsSqrt :: "jsnum \<Rightarrow> jsnum" where
  "jsSqrt (Fin x) = (if x < 0 then NaN else toDouble (sqrt x))"
| "jsSqrt NaN = NaN"
| "jsSqrt PosInf = PosInf"
| "jsSqrt NegInf = NaN"

text \<open>
  \<open>Math.round\<close>: the nearest integer, a half going up. The result is exact: below
  \<open>2 ^ 52\<close> it is an integer that a double holds, and from there on every double is an
  integer already.
\<close>

fun mathRound :: "jsnum \<Rightarrow> jsnum" where
  "mathRound (Fin x) = Fin (of_int \<lfloor>x + 1 / 2\<rfloor>)"
| "mathRound n = n"

text \<open>\<open>Math.round(x * k) / k\<close>.\<close>

definition roundTo :: "real \<Rightarrow> jsnum \<Rightarrow> jsnum" where
  "roundTo k x = jsDiv (mathRound (jsMul x (Fin k))) (Fin k)"

section \<open>Calendar dates as the Date object computes them\<close>

definition isLeap :: "int \<Rightarrow> bool" where
  "isLeap y = (y mod 4 = 0 \<and> (y mod 100 \<noteq> 0 \<or> y mod 400 = 0))"

text \<open>Days of the month with index \<open>m\<close> (0 is January, as \<open>getMonth\<close> counts).\<close>

definition daysInMonth :: "int \<Rightarrow> int \<Rightarrow> int" where
  "daysInMonth y m =
     (if m = 1 then (if isLeap y then 29 else 28)
      else if m = 3 \<or> m = 5 \<or> m = 8 \<or> m = 10 then 30 else 31)"

definition prevY :: "int \<Rightarrow> int \<Rightarrow> int" where
  "prevY y m = (if m = 0 then y - 1 else y)"

definition prevM :: "int \<Rightarrow> int" where
  "prevM m = (if m = 0 then 11 else m - 1)"

definition nextY :: "int \<Rightarrow> int \<Rightarrow> int" where
  "nextY y m = (if m = 11 then y + 1 else y)"

definition nextM :: "int \<Rightarrow> int" where
  "nextM m = (if m = 11 then 0 else m + 1)"

text \<open>
  A day number outside its month is carried into the neighbouring months, which is
  what the Date constructor and \<open>setDate\<close> do with an overflowing day.
\<close>

function normDay :: "int \<Rightarrow> int \<Rightarrow> int \<Rightarrow> int \<times> int \<times> int" where
  "normDay y m d =
     (if d < 1 then normDay (prevY y m) (prevM m) (d + daysInMonth (prevY y m) (prevM m))
      else if daysInMonth y m < d then normDay (nextY y m) (nextM m) (d - daysInMonth y m)
      else (y, m, d))"
  by pat_completeness auto
termination
proof (relation "measure (\<lambda>(y, m, d). if d < 1 then nat (1 - d) + 32 else nat d)")
  show "wf (measure (\<lambda>(y, m, d). if d < 1 then nat (1 - d) + 32 else nat d))"
    by simp
next
  fix y m d :: int
  assume "d < 1"
  then show "((prevY y m, prevM m, d + daysInMonth (prevY y m) (prevM m)), (y, m, d))
      \<in> measure (\<lambda>(y, m, d). if d < 1 then nat (1 - d) + 32 else nat d)"
    by (auto simp: daysInMonth_def)
next
  fix y m d :: int
  assume "\<not> d < 1" "daysInMonth y m < d"
  then show "((nextY y m, nextM m, d - daysInMonth y m), (y, m, d))
      \<in> measure (\<lambda>(y, m, d). if d < 1 then nat (1 - d) + 32 else nat d)"
    by (auto simp: daysInMonth_def)
qed

declare normDay.simps [simp del]

text \<open>
  \<open>new Date(year, monthIndex, day)\<close> read back through \<open>getFullYear\<close>,
  \<open>getMonth\<close> and \<open>getDate\<close>: a year from 0 to 99 means 1900 + year, a month
  index outside 0..11 is carried into the year. All three readings are local, so no
  time zone enters. The range limit of the time value is not modelled.
\<close>

definition makeDate :: "int \<Rightarrow> int \<Rightarrow> int \<Rightarrow> int \<times> int \<times> int" where
  "makeDate year monthIndex day =
     (let yr = (if 0 \<le> year \<and> year \<le> 99 then 1900 + year else year)
      in normDay (yr + monthIndex div 12) (monthIndex mod 12) day)"

definition toIsoDateFromParts :: "int \<Rightarrow> int \<Rightarrow> int \<Rightarrow> string" where
  "toIsoDateFromParts year month day =
     padStart 4 (showInt year) @ ''-'' @ pad2 month @ ''-'' @ pad2 day"

definition isValidYmd :: "int \<Rightarrow> int \<Rightarrow> int \<Rightarrow> bool" where
  "isValidYmd year month day = (makeDate year (month - 1) day = (year, month - 1, day))"

section \<open>Date normalizer\<close>

datatype family = Iso | Month_name | Dmy | Mdy

fun familyName :: "family \<Rightarrow> string" where
  "familyName Iso = ''iso''"
| "familyName Month_name = ''month_name''"
| "familyName Dmy = ''dmy''"
| "familyName Mdy = ''mdy''"

text \<open>
  What a per-value parser returns besides \<open>null\<close>: a family with its ISO date, or one
  of the two tags \<open>invalid\<close> and \<open>ambiguous\<close>, which carry no date.
\<close>

datatype parsed = Parsed family string | Invalid | Ambiguous

text \<open>The test \<open>/^\d{4}-\d{2}-\d{2}$/\<close>.\<close>

definition matchIsoDate :: "string \<Rightarrow> bool" where
  "matchIsoDate s =
     (length s = 10 \<and> list_all isDigit (take 4 s) \<and> s ! 4 = CHR ''-''
      \<and> list_all isDigit (take 2 (drop 5 s)) \<and> s ! 7 = CHR ''-''
      \<and> list_all isDigit (drop 8 s))"

definition parseIsoDate :: "string \<Rightarrow> parsed option" where
  "parseIsoDate raw =
     (if \<not> matchIsoDate raw then None
      else (case map digitsToNat (split CHR ''-'' raw) of
              y # mo # d # _ \<Rightarrow>
                if \<not> isValidYmd (int y) (int mo) (int d) then None
                else Some (Parsed Iso (toIsoDateFromParts (int y) (int mo) (int d)))
            | _ \<Rightarrow> None))"

text \<open>The test \<open>/^\d{4}-\d{2}-\d{2}T/\<close>.\<close>

definition looksLikeIsoTs :: "string \<Rightarrow> bool" where
  "looksLikeIsoTs s =
     (11 \<le> length s \<and> list_all isDigit (take 4 s) \<and> s ! 4 = CHR ''-''
      \<and> list_all isDigit (take 2 (drop 5 s)) \<and> s ! 7 = CHR ''-''
      \<and> list_all isDigit (take 2 (drop 8 s)) \<and> s ! 10 = CHR ''T'')"

text \<open>
  \<open>new Date(raw)\<close> on a timestamp string is the host's parser and its local time
  zone. It is a parameter: the host returns \<open>None\<close> for an invalid date and otherwise
  the local \<open>getFullYear\<close>, \<open>getMonth\<close> and \<open>getDate\<close>.
\<close>

type_synonym host = "string \<Rightarrow> (int \<times> int \<times> int) option"

definition parseIsoTimestamp :: "host \<Rightarrow> string \<Rightarrow> parsed option" where
  "parseIsoTimestamp host raw =
     (if \<not> looksLikeIsoTs raw then None
      else (case host raw of
              None \<Rightarrow> None
            | Some (year, monthIndex, day) \<Rightarrow>
                Some (Parsed Iso (toIsoDateFromParts year (monthIndex + 1) day))))"

definition monthMap :: "(string \<times> int) list" where
  "monthMap =
     [(''jan'', 1), (''january'', 1), (''feb'', 2), (''february'', 2), (''mar'', 3),
      (''march'', 3), (''apr'', 4), (''april'', 4), (''may'', 5), (''jun'', 6), (''june'', 6),
      (''jul'', 7), (''july'', 7), (''aug'', 8), (''august'', 8), (''sep'', 9), (''sept'', 9),
      (''september'', 9), (''oct'', 10), (''october'', 10), (''nov'', 11), (''november'', 11),
      (''dec'', 12), (''december'', 12)]"

text \<open>
  The match of \<open>/^([A-Za-z]+)\s+(\d{1,2})(?:,)?\s+(\d{4})$/\<close>. The classes of letters,
  white space, digits and the comma are disjoint, so the longest run of each is the only
  way the expression can match.
\<close>

definition matchMonthName :: "string \<Rightarrow> (string \<times> string \<times> string) option" where
  "matchMonthName c =
     (let letters = takeWhile isAlpha c;
          r1 = dropWhile isAlpha c;
          r2 = dropWhile isSpace r1;
          dd = takeWhile isDigit r2;
          r3 = dropWhile isDigit r2;
          r4 = (case r3 of [] \<Rightarrow> [] | x # xs \<Rightarrow> if x = CHR '','' then xs else r3);
          r5 = dropWhile isSpace r4
      in if letters \<noteq> [] \<and> r2 \<noteq> r1 \<and> (length dd = 1 \<or> length dd = 2) \<and> r5 \<noteq> r4
            \<and> length r5 = 4 \<and> list_all isDigit r5
         then Some (letters, dd, r5) else None)"

text \<open>
  \<open>monthMap\<close> is an object literal, so the token \<open>constructor\<close> finds the inherited
  property: it is truthy and is no month, and the calendar check then fails.
\<close>

definition parseMonthNameDate :: "string \<Rightarrow> parsed option" where
  "parseMonthNameDate raw =
     (let s = trim raw in
      if s = [] then None
      else
        let afterFirstComma =
              (if CHR '','' \<in> set s then trim (join '','' (tl (split CHR '','' s))) else s);
            candidate = (if afterFirstComma \<noteq> [] then afterFirstComma else s)
        in (case matchMonthName candidate of
              None \<Rightarrow> None
            | Some (m1, m2, m3) \<Rightarrow>
                let monthToken = toLowerCase m1 in
                if monthToken = ''constructor'' then Some Invalid
                else (case map_of monthMap monthToken of
                        None \<Rightarrow> None
                      | Some month \<Rightarrow>
                          let day = int (digitsToNat m2); year = int (digitsToNat m3) in
                          if \<not> isValidYmd year month day then Some Invalid
                          else Some (Parsed Month_name (toIsoDateFromParts year month day)))))"

text \<open>The match of \<open>/^(\d{2})\/(\d{2})\/(\d{4})$/\<close>.\<close>

definition matchSlash :: "string \<Rightarrow> (string \<times> string \<times> string) option" where
  "matchSlash s =
     (if length s = 10 \<and> list_all isDigit (take 2 s) \<and> s ! 2 = CHR ''/''
         \<and> list_all isDigit (take 2 (drop 3 s)) \<and> s ! 5 = CHR ''/''
         \<and> list_all isDigit (drop 6 s)
      then Some (take 2 s, take 2 (drop 3 s), drop 6 s) else None)"

definition parseSlashDate :: "string \<Rightarrow> parsed option" where
  "parseSlashDate raw =
     (case matchSlash raw of
        None \<Rightarrow> None
      | Some (m1, m2, m3) \<Rightarrow>
          let a = int (digitsToNat m1); b = int (digitsToNat m2); year = int (digitsToNat m3) in
          if a < 1 \<or> a > 31 \<or> b < 1 \<or> b > 31 then Some Invalid
          else
            let isDmy = (a > 12 \<and> b \<le> 12); isMdy = (b > 12 \<and> a \<le> 12) in
            if \<not> isDmy \<and> \<not> isMdy then Some Ambiguous
            else
              let day = (if isDmy then a else b); month = (if isDmy then b else a) in
              if \<not> isValidYmd year month day then Some Invalid
              else Some (Parsed (if isDmy then Dmy else Mdy)
                           (toIsoDateFromParts year month day)))"

text \<open>
  \<open>dateIso.split('-').map(Number)\<close> and \<open>new Date(y, m - 1, d)\<close>. The parts are read as
  strings of decimal digits, which is what a \<open>date_iso\<close> written by the normalizer
  consists of; with fewer than three parts, or a part that is no digit string, the model
  takes the Date to be invalid (\<open>None\<close>).
\<close>

definition isDigits :: "string \<Rightarrow> bool" where
  "isDigits p = (p \<noteq> [] \<and> list_all isDigit p)"

definition parseIsoToDate :: "string \<Rightarrow> (int \<times> int \<times> int) option" where
  "parseIsoToDate dateIso =
     (case split CHR ''-'' dateIso of
        y # m # d # _ \<Rightarrow>
          if isDigits y \<and> isDigits m \<and> isDigits d
          then Some (makeDate (int (digitsToNat y)) (int (digitsToNat m) - 1) (int (digitsToNat d)))
          else None
      | _ \<Rightarrow> None)"

text \<open>
  \<open>dt.setDate(dt.getDate() + deltaDays)\<close> and the date written back. An invalid Date
  prints \<open>NaN\<close> in each part, and \<open>padStart(4, '0')\<close> pads the first.
\<close>

definition addDaysIso :: "string \<Rightarrow> int \<Rightarrow> string" where
  "addDaysIso dateIso deltaDays =
     (case parseIsoToDate dateIso of
        None \<Rightarrow> ''0NaN-NaN-NaN''
      | Some (y1, m1, d1) \<Rightarrow>
          (case normDay y1 m1 (d1 + deltaDays) of
             (y2, m2, d2) \<Rightarrow> toIsoDateFromParts y2 (m2 + 1) d2))"

text \<open>The chain \<open>parseIsoDate(s) ?? parseIsoTimestamp(s) ?? parseMonthNameDate(s) ?? parseSlashDate(s)\<close>.\<close>

definition parseAny :: "host \<Rightarrow> string \<Rightarrow> parsed option" where
  "parseAny host s =
     (case parseIsoDate s of Some p \<Rightarrow> Some p | None \<Rightarrow>
      (case parseIsoTimestamp host s of Some p \<Rightarrow> Some p | None \<Rightarrow>
       (case parseMonthNameDate s of Some p \<Rightarrow> Some p | None \<Rightarrow> parseSlashDate s)))"

datatype missing_policy = Drop | Fail

text \<open>
  A row is any value \<open>'r\<close>; \<open>dateKey\<close> reads its date cell, \<open>None\<close> for \<open>null\<close> or a
  missing key. A normalized row is the row with \<open>date_raw\<close> and \<open>date_iso\<close> added.
\<close>

record 'r date_options =
  dateKey :: "'r \<Rightarrow> string option"
  sourceName :: string
  onMissingDate :: missing_policy

record 'r normalized_row =
  row :: 'r
  date_raw :: string
  date_iso :: string

definition isMissing :: "string option \<Rightarrow> bool" where
  "isMissing raw = (case raw of None \<Rightarrow> True | Some v \<Rightarrow> trim v = [])"

text \<open>
  The loop over the rows: \<open>i\<close> is the index, the accumulator holds the families seen (a
  Set, kept in insertion order), the normalized rows and the count of dropped rows.
\<close>

fun normLoop :: "host \<Rightarrow> 'r date_options \<Rightarrow> nat \<Rightarrow> 'r list
    \<Rightarrow> family list \<times> 'r normalized_row list \<times> nat
    \<Rightarrow> error + family list \<times> 'r normalized_row list \<times> nat" where
  "normLoop host opts i [] acc = Inr acc"
| "normLoop host opts i (r # rest) (families, normalized, droppedMissing) =
     (let raw = dateKey opts r in
      if isMissing raw then
        (if onMissingDate opts = Drop
         then normLoop host opts (i + 1) rest (families, normalized, droppedMissing + 1)
         else Inl (makeError ''DATE_INVALID''
                (''Missing date at row '' @ showNat (i + 1) @ '' in '' @ sourceName opts @ ''.'')
                (Some i) None))
      else
        let s = trim (case raw of Some v \<Rightarrow> v | None \<Rightarrow> []) in
        (case parseAny host s of
           None \<Rightarrow> Inl (makeError ''DATE_INVALID''
                (''Unrecognized date format at row '' @ showNat (i + 1) @ '' in ''
                   @ sourceName opts @ ''.'') (Some i) (Some s))
         | Some Ambiguous \<Rightarrow> Inl (makeError ''DATE_AMBIGUOUS''
                (''Ambiguous date at row '' @ showNat (i + 1) @ '' in '' @ sourceName opts @ ''.'')
                (Some i) (Some s))
         | Some Invalid \<Rightarrow> Inl (makeError ''DATE_INVALID''
                (''Invalid date at row '' @ showNat (i + 1) @ '' in '' @ sourceName opts @ ''.'')
                (Some i) (Some s))
         | Some (Parsed f dIso) \<Rightarrow>
             normLoop host opts (i + 1) rest
               (if f \<in> set families then families else families @ [f],
                normalized @ [\<lparr>row = r, date_raw = s, date_iso = dIso\<rparr>],
                droppedMissing)))"

text \<open>
  The scan for missing calendar days walks from the least date towards the greatest,
  comparing strings; nothing in the loop bounds it, so it is a partial function.
\<close>

partial_function (option) gapLoop :: "string \<Rightarrow> string \<Rightarrow> string list \<Rightarrow> string list
    \<Rightarrow> string list option" where
  "gapLoop cursor mx dateSet missing =
     (if cursor < mx then
        (let c = addDaysIso cursor 1 in
         gapLoop c mx dateSet (if c < mx \<and> c \<notin> set dateSet then missing @ [c] else missing))
      else Some missing)"

declare gapLoop.simps [code]

definition gapWarnings :: "string list \<Rightarrow> string list option" where
  "gapWarnings sortedDates =
     (if 2 \<le> length sortedDates then
        (let mn = hd sortedDates; mx = last sortedDates in
         case gapLoop mn mx sortedDates [] of
           None \<Rightarrow> None
         | Some missing \<Rightarrow>
             Some (if missing \<noteq> []
                   then [''Detected '' @ showNat (length missing) @ '' missing dates between ''
                           @ mn @ '' and '' @ mx @ ''. Example: '' @ join '', '' (take 5 missing)]
                   else []))
      else Some [])"

text \<open>
  The result is \<open>None\<close> when the gap scan does not return, \<open>Some (Inl e)\<close> for a typed
  failure and \<open>Some (Inr (rows, warnings))\<close> for a success.
\<close>

definition normalizeDatesInRows :: "host \<Rightarrow> 'r list \<Rightarrow> 'r date_options
    \<Rightarrow> (error + 'r normalized_row list \<times> string list) option" where
  "normalizeDatesInRows host rows opts =
     (case normLoop host opts 0 rows ([], [], 0) of
        Inl e \<Rightarrow> Some (Inl e)
      | Inr (families, normalized, droppedMissing) \<Rightarrow>
          let w1 = (if 0 < droppedMissing
                    then [''Dropped '' @ showNat droppedMissing @ '' rows in '' @ sourceName opts
                            @ '' due to missing dates.'']
                    else [])
          in if 1 < length families then
               Some (Inl ((makeError ''DATE_MIXED_FORMATS''
                    (''Mixed date formats detected in '' @ sourceName opts
                       @ ''. Use a single format per file.'') None None)
                    \<lparr>listed := map familyName families\<rparr>))
             else
               let dateSet = remdups (map date_iso normalized);
                   w2 = (if length dateSet < 7
                         then [''Only '' @ showNat (length dateSet) @ '' distinct dates found in ''
                                 @ sourceName opts @ ''. Some metrics may be limited.'']
                         else [])
               in (case gapWarnings (sort dateSet) of
                     None \<Rightarrow> None
                   | Some w3 \<Rightarrow> Some (Inr (normalized, w1 @ w2 @ w3))))"

section \<open>Merger\<close>

text \<open>
  The merger reads \<open>date_iso\<close> and \<open>total_orders\<close> of an order row, and \<open>date_iso\<close>,
  \<open>temperature_c\<close>, \<open>rainfall_mm\<close> and \<open>humidity_pct\<close> of a weather row. The fields of
  each record carry a prefix, since record fields share one name space.
\<close>

record order_row =
  o_date_iso :: "string option"
  o_total_orders :: jsval

record weather_row =
  w_date_iso :: "string option"
  w_temperature_c :: jsval
  w_rainfall_mm :: jsval
  w_humidity_pct :: jsval

record daily_order =
  d_date_iso :: string
  d_total_orders :: jsnum

record bucket =
  countTemp :: nat
  sumTemp :: jsnum
  sumRain :: jsnum
  countHumidity :: nat
  sumHumidity :: jsnum

record daily_weather =
  dw_date_iso :: string
  dw_temperature_c :: jsval
  dw_rainfall_mm :: jsval
  dw_humidity_pct :: jsval

record merged_row =
  m_date_iso :: string
  m_total_orders :: jsval
  m_temperature_c :: jsval
  m_rainfall_mm :: jsval
  m_humidity_pct :: jsval
  m_imputed_weather :: bool

text \<open>The test \<open>!dateIso\<close>: a missing, \<open>null\<close> or empty date is skipped.\<close>

definition truthyDate :: "string option \<Rightarrow> string option" where
  "truthyDate v = (case v of None \<Rightarrow> None | Some s \<Rightarrow> if s = [] then None else Some s)"

definition addDays :: "string \<Rightarrow> int \<Rightarrow> string" where
  "addDays dateIso deltaDays = addDaysIso dateIso deltaDays"

text \<open>
  A \<open>Map\<close> is an association list in insertion order; \<open>AList.update\<close> replaces the
  value of a present key in place and appends a new key, as \<open>Map.set\<close> does.
\<close>

fun ordersLoop :: "order_row list \<Rightarrow> (string \<times> jsnum) list \<Rightarrow> (string \<times> jsnum) list" where
  "ordersLoop [] byDate = byDate"
| "ordersLoop (r # rs) byDate =
     (case truthyDate (o_date_iso r) of
        None \<Rightarrow> ordersLoop rs byDate
      | Some dateIso \<Rightarrow>
          let orders = toNumber (o_total_orders r) in
          if \<not> numIsFinite orders then ordersLoop rs byDate
          else ordersLoop rs
                 (AList.update dateIso
                    (jsAdd (case map_of byDate dateIso of None \<Rightarrow> Fin 0 | Some v \<Rightarrow> v) orders)
                    byDate))"

definition aggregateOrdersDaily :: "order_row list \<Rightarrow> daily_order list" where
  "aggregateOrdersDaily orderRows =
     (let byDate = ordersLoop orderRows [];
          dates = sort (map fst byDate)
      in map (\<lambda>d. \<lparr>d_date_iso = d,
                     d_total_orders = (case map_of byDate d of None \<Rightarrow> Fin 0 | Some v \<Rightarrow> v)\<rparr>) dates)"

definition emptyBucket :: bucket where
  "emptyBucket = \<lparr>countTemp = 0, sumTemp = Fin 0, sumRain = Fin 0, countHumidity = 0, sumHumidity = Fin 0\<rparr>"

definition addReading :: "bucket \<Rightarrow> weather_row \<Rightarrow> bucket" where
  "addReading b r =
     (let b1 = (if isFiniteVal (w_temperature_c r)
                then b\<lparr>countTemp := countTemp b + 1,
                       sumTemp := jsAdd (sumTemp b) (toNumber (w_temperature_c r))\<rparr>
                else b);
          b2 = (if isFiniteVal (w_rainfall_mm r)
                then b1\<lparr>sumRain := jsAdd (sumRain b1) (toNumber (w_rainfall_mm r))\<rparr>
                else b1)
      in if isFiniteVal (w_humidity_pct r)
         then b2\<lparr>countHumidity := countHumidity b2 + 1,
                 sumHumidity := jsAdd (sumHumidity b2) (toNumber (w_humidity_pct r))\<rparr>
         else b2)"

fun weatherLoop :: "weather_row list \<Rightarrow> (string \<times> bucket) list \<Rightarrow> (string \<times> bucket) list" where
  "weatherLoop [] acc = acc"
| "weatherLoop (r # rs) acc =
     (case truthyDate (w_date_iso r) of
        None \<Rightarrow> weatherLoop rs acc
      | Some dateIso \<Rightarrow>
          let b = (case map_of acc dateIso of None \<Rightarrow> emptyBucket | Some b \<Rightarrow> b)
          in weatherLoop rs (AList.update dateIso (addReading b r) acc))"

fun bucketsToWeather :: "(string \<times> bucket) list \<Rightarrow> (string \<times> daily_weather) list
    \<Rightarrow> (string \<times> daily_weather) list" where
  "bucketsToWeather [] byDate = byDate"
| "bucketsToWeather ((dateIso, b) # rest) byDate =
     (if countTemp b = 0 then bucketsToWeather rest byDate
      else bucketsToWeather rest
             (AList.update dateIso
                \<lparr>dw_date_iso = dateIso,
                 dw_temperature_c = JNum (jsDiv (sumTemp b) (Fin (real (countTemp b)))),
                 dw_rainfall_mm = JNum (sumRain b),
                 dw_humidity_pct = (if countHumidity b \<noteq> 0
                                    then JNum (jsDiv (sumHumidity b) (Fin (real (countHumidity b))))
                                    else JNull)\<rparr>
                byDate))"

definition aggregateWeatherDaily :: "weather_row list \<Rightarrow> (string \<times> daily_weather) list" where
  "aggregateWeatherDaily weatherRows = bucketsToWeather (weatherLoop weatherRows []) []"

datatype nearest = NotFound | Found daily_weather bool

text \<open>The search loop of \<open>findNearestWeather\<close>, from \<open>offset\<close> up to \<open>maxGapDays\<close>.\<close>

function searchFrom :: "string \<Rightarrow> (string \<times> daily_weather) list \<Rightarrow> int \<Rightarrow> nat \<Rightarrow> nearest" where
  "searchFrom dateIso weatherByDate maxGapDays offset =
     (if int offset \<le> maxGapDays then
        (case map_of weatherByDate (addDays dateIso (- int offset)) of
           Some w \<Rightarrow> Found w True
         | None \<Rightarrow>
             (case map_of weatherByDate (addDays dateIso (int offset)) of
                Some w \<Rightarrow> Found w True
              | None \<Rightarrow> searchFrom dateIso weatherByDate maxGapDays (offset + 1)))
      else NotFound)"
  by pat_completeness auto
termination
  by (relation "measure (\<lambda>(d, w, g, offset). nat (g + 1) - offset)") auto

declare searchFrom.simps [simp del]

definition findNearestWeather :: "string \<Rightarrow> (string \<times> daily_weather) list \<Rightarrow> int \<Rightarrow> nearest" where
  "findNearestWeather dateIso weatherByDate maxGapDays =
     (case map_of weatherByDate dateIso of
        Some w \<Rightarrow> Found w False
      | None \<Rightarrow> searchFrom dateIso weatherByDate maxGapDays 1)"

text \<open>
  The option \<open>maxGapDays\<close> is an integer or absent, and absent means 3. (The callers
  of the repository pass none.)
\<close>

record merge_options =
  maxGapDays :: "int option"

fun mergeLoop :: "(string \<times> daily_weather) list \<Rightarrow> int \<Rightarrow> daily_order list
    \<Rightarrow> merged_row list \<times> string list \<Rightarrow> merged_row list \<times> string list" where
  "mergeLoop weatherByDate g [] acc = acc"
| "mergeLoop weatherByDate g (o1 # os) (merged, warnings) =
     (let dateIso = d_date_iso o1 in
      case findNearestWeather dateIso weatherByDate g of
        NotFound \<Rightarrow>
          mergeLoop weatherByDate g os
            (merged,
             warnings @ [''Weather could not be imputed for '' @ dateIso @ '' within ''
                          @ showInt g @ '' days. Dropping row.''])
      | Found w imputed \<Rightarrow>
          mergeLoop weatherByDate g os
            (merged @ [\<lparr>m_date_iso = dateIso,
                        m_total_orders = JNum (d_total_orders o1),
                        m_temperature_c = dw_temperature_c w,
                        m_rainfall_mm = dw_rainfall_mm w,
                        m_humidity_pct = dw_humidity_pct w,
                        m_imputed_weather = imputed\<rparr>],
             warnings))"

definition mergeOrdersWithWeather :: "order_row list \<Rightarrow> weather_row list \<Rightarrow> merge_options
    \<Rightarrow> error + merged_row list \<times> string list" where
  "mergeOrdersWithWeather orderRows weatherRows options =
     (let g = (case maxGapDays options of Some n \<Rightarrow> n | None \<Rightarrow> 3);
          dailyOrders = aggregateOrdersDaily orderRows;
          weatherByDate = aggregateWeatherDaily weatherRows
      in case mergeLoop weatherByDate g dailyOrders ([], []) of
           (merged0, warnings) \<Rightarrow>
             let merged = sort_key m_date_iso merged0 in
             if merged = [] then
               Inl (makeError ''MERGE_NO_ROWS''
                 ''Merge produced no rows. Check date normalization and imputation rules.''
                 None None)
             else Inr (merged, warnings))"


definition countedOrder :: "string \<Rightarrow> order_row \<Rightarrow> bool" where
  "countedOrder d r = (o_date_iso r = Some d \<and> d \<noteq> [] \<and> numIsFinite (toNumber (o_total_orders r)))"

definition orderSum :: "string \<Rightarrow> order_row list \<Rightarrow> jsnum" where
  "orderSum d orderRows =
     foldl jsAdd (Fin 0) (map (\<lambda>r. toNumber (o_total_orders r)) (filter (countedOrder d) orderRows))"

section \<open>Metrics engine\<close>

text \<open>
  In \<open>percentile\<close> the index \<open>(length - 1) * p\<close> and the weight \<open>idx - lo\<close> are exact
  for the two quantiles in use, a quarter and three quarters; the interpolation rounds.
\<close>

definition percentile :: "jsnum list \<Rightarrow> real \<Rightarrow> jsval" where
  "percentile sortedValues p =
     (if sortedValues = [] then JNull
      else if p \<le> 0 then JNum (hd sortedValues)
      else if 1 \<le> p then JNum (last sortedValues)
      else
        let idx = real (length sortedValues - 1) * p;
            lo = nat \<lfloor>idx\<rfloor>;
            hi = nat \<lceil>idx\<rceil>
        in if lo = hi then JNum (sortedValues ! lo)
           else
             let w = idx - real lo
             in JNum (jsAdd (jsMul (sortedValues ! lo) (Fin (1 - w)))
                            (jsMul (sortedValues ! hi) (Fin w))))"

definition safeAverage :: "jsval list \<Rightarrow> jsval" where
  "safeAverage values =
     (let finite = filter isFiniteVal values in
      if finite = [] then JNull
      else JNum (jsDiv (foldl jsAdd (Fin 0) (map toNumber finite)) (Fin (real (length finite)))))"

function maLoop :: "jsnum list \<Rightarrow> nat \<Rightarrow> nat \<Rightarrow> jsnum \<Rightarrow> jsval list" where
  "maLoop values windowSize i s0 =
     (if i < length values then
        (let s1 = jsAdd s0 (values ! i);
             s2 = (if windowSize \<le> i then jsSub s1 (values ! (i - windowSize)) else s1)
         in (if windowSize - 1 \<le> i then JNum (jsDiv s2 (Fin (real windowSize))) else JNull)
              # maLoop values windowSize (i + 1) s2)
      else [])"
  by pat_completeness auto
termination
  by (relation "measure (\<lambda>(values, w, i, s0). length values - i)") auto

declare maLoop.simps [simp del]

definition computeMovingAverage :: "jsnum list \<Rightarrow> nat \<Rightarrow> jsval list" where
  "computeMovingAverage values windowSize =
     (if length values < windowSize then map (\<lambda>v. JNull) values
      else maLoop values windowSize 0 (Fin 0))"

definition pearsonCorrelation :: "jsval list \<Rightarrow> jsval list \<Rightarrow> jsval" where
  "pearsonCorrelation xs ys =
     (let pairs = filter (\<lambda>(x, y). isFiniteVal x \<and> isFiniteVal y) (zip xs ys) in
      if length pairs < 3 then JNull
      else
        let n = Fin (real (length pairs));
            meanX = jsDiv (foldl (\<lambda>s (x, y). jsAdd s (toNumber x)) (Fin 0) pairs) n;
            meanY = jsDiv (foldl (\<lambda>s (x, y). jsAdd s (toNumber y)) (Fin 0) pairs) n;
            num = foldl (\<lambda>s (x, y). jsAdd s (jsMul (jsSub (toNumber x) meanX)
                                                   (jsSub (toNumber y) meanY))) (Fin 0) pairs;
            denX = foldl (\<lambda>s (x, y). jsAdd s (jsMul (jsSub (toNumber x) meanX)
                                                    (jsSub (toNumber x) meanX))) (Fin 0) pairs;
            denY = foldl (\<lambda>s (x, y). jsAdd s (jsMul (jsSub (toNumber y) meanY)
                                                    (jsSub (toNumber y) meanY))) (Fin 0) pairs;
            denom = jsSqrt (jsMul denX denY)
        in if \<not> numIsFinite denom \<or> denom = Fin 0 then JNull
           else JNum (jsDiv num denom))"

definition dayOfWeekLabel :: "nat \<Rightarrow> string" where
  "dayOfWeekLabel dow =
     (if dow < 7 then [''Sun'', ''Mon'', ''Tue'', ''Wed'', ''Thu'', ''Fri'', ''Sat''] ! dow
      else showNat dow)"

text \<open>
  \<open>getDay\<close> of a Date with the calendar fields \<open>y\<close>, \<open>m\<close> (from 0) and \<open>d\<close>: the days
  since the first of January 1970, a Thursday.
\<close>

definition daysFromCivil :: "int \<Rightarrow> int \<Rightarrow> int \<Rightarrow> int" where
  "daysFromCivil y m d =
     (let y1 = (if m \<le> 1 then y - 1 else y);
          era = y1 div 400;
          yoe = y1 - era * 400;
          doy = (153 * (if m \<le> 1 then m + 10 else m - 2) + 2) div 5 + d - 1;
          doe = yoe * 365 + yoe div 4 - yoe div 100 + doy
      in era * 146097 + doe - 719468)"

definition getDay :: "int \<times> int \<times> int \<Rightarrow> nat" where
  "getDay dt = (case dt of (y, m, d) \<Rightarrow> nat ((daysFromCivil y m d + 4) mod 7))"

datatype temp_category = Cold | Moderate | Hot

record enriched_row = merged_row +
  is_rainy :: bool
  day_of_week :: "nat option"
  temp_category :: "temp_category option"
  moving_avg_7 :: jsval

record metrics_options =
  rainThresholdMm :: jsval

text \<open>The rain test of a row: \<open>Number(r.rainfall_mm)\<close>, and no rain unless it is finite.\<close>

definition isRainy :: "jsnum \<Rightarrow> merged_row \<Rightarrow> bool" where
  "isRainy threshold r =
     (let rainfall = toNumber (m_rainfall_mm r) in
      if numIsFinite rainfall then jsGreater rainfall threshold else False)"

definition tempCategory :: "jsval \<Rightarrow> jsval \<Rightarrow> merged_row \<Rightarrow> temp_category option" where
  "tempCategory p25 p75 r =
     (if isFiniteVal (m_temperature_c r) \<and> p25 \<noteq> JNull \<and> p75 \<noteq> JNull then
        (if jsLess (toNumber (m_temperature_c r)) (toNumber p25) then Some Cold
         else if jsGreater (toNumber (m_temperature_c r)) (toNumber p75) then Some Hot
         else Some Moderate)
      else None)"

text \<open>One enriched row; \<open>day_of_week\<close> is \<open>None\<close> for the NaN of an invalid Date.\<close>

definition enrich :: "jsnum \<Rightarrow> jsval \<Rightarrow> jsval \<Rightarrow> merged_row \<times> jsval \<Rightarrow> enriched_row" where
  "enrich threshold p25 p75 rm =
     (case rm of (r, ma) \<Rightarrow>
        merged_row.extend r
          \<lparr>is_rainy = isRainy threshold r,
           day_of_week = map_option getDay (parseIsoToDate (m_date_iso r)),
           temp_category = tempCategory p25 p75 r,
           moving_avg_7 = ma\<rparr>)"

text \<open>
  The four reductions for the greatest and least orders and temperatures: the first
  row starts, a later row replaces it when its value is finite and strictly beyond.
\<close>

definition pickRow :: "(jsnum \<Rightarrow> jsnum \<Rightarrow> bool) \<Rightarrow> (enriched_row \<Rightarrow> jsval) \<Rightarrow> enriched_row list
    \<Rightarrow> enriched_row option" where
  "pickRow beyond get rows =
     foldl (\<lambda>best r. case best of
                None \<Rightarrow> Some r
              | Some b \<Rightarrow>
                  if isFiniteVal (get r) \<and> beyond (toNumber (get r)) (toNumber (get b))
                  then Some r else Some b)
       None rows"

text \<open>
  The weekday buckets. A row with an invalid Date and finite orders indexes the
  buckets with NaN, and the access to \<open>count\<close> throws: the loop then has no result.
\<close>

fun dowLoop :: "enriched_row list \<Rightarrow> (nat \<times> jsnum) list \<Rightarrow> (nat \<times> jsnum) list option" where
  "dowLoop [] buckets = Some buckets"
| "dowLoop (r # rs) buckets =
     (if \<not> isFiniteVal (m_total_orders r) then dowLoop rs buckets
      else (case day_of_week r of
              None \<Rightarrow> None
            | Some dow \<Rightarrow>
                (case buckets ! dow of
                   (cnt, tot) \<Rightarrow>
                     dowLoop rs
                       (buckets[dow := (cnt + 1, jsAdd tot (toNumber (m_total_orders r)))]))))"

record dow_row =
  dow :: nat
  label :: string
  count :: nat
  avg_orders :: jsval

record kpis =
  totalOrders :: jsnum
  avgOrdersPerDay :: jsnum
  rainyDayAvg :: jsval
  nonRainyDayAvg :: jsval
  percentIncrease :: jsval
  rainyDays :: nat
  nonRainyDays :: nat
  imputedWeatherPct :: jsnum
  maxOrdersDay :: "(string \<times> jsval) option"
  minOrdersDay :: "(string \<times> jsval) option"
  hottestDay :: "(string \<times> jsnum) option"
  coldestDay :: "(string \<times> jsnum) option"
  bestWeekday :: "(string \<times> jsnum) option"
  tempOrderCorr :: jsval

record orders_point =
  op_date_iso :: string
  op_total_orders :: jsval
  op_is_rainy :: bool
  op_moving_avg_7 :: jsval

record weather_impact =
  rainyAvg :: jsval
  nonRainyAvg :: jsval
  percentDifference :: jsval
  wi_rainyDays :: nat
  wi_nonRainyDays :: nat

record temp_point =
  tp_date_iso :: string
  tp_temperature_c :: jsval
  tp_total_orders :: jsval
  tp_is_rainy :: bool

record chart_data =
  ordersOverTime :: "orders_point list"
  weatherImpact :: weather_impact
  tempCorrelation :: "temp_point list"
  dayOfWeek :: "dow_row list"
  cd_tempOrderCorr :: jsval
  tempBuckets :: "jsval \<times> jsval"

record metrics =
  m_kpis :: kpis
  m_chartData :: chart_data
  m_warnings :: "string list"

text \<open>
  The labels \<open>maxOrdersDay\<close>, \<open>hottestDay\<close> and \<open>bestWeekday\<close> are template strings of a
  date or weekday and a number; they are kept as the pair of their parts. A thrown
  TypeError is the failure with that code.
\<close>

definition roundOrNull :: "real \<Rightarrow> jsval \<Rightarrow> jsval" where
  "roundOrNull k v = (if v = JNull then JNull else JNum (roundTo k (toNumber v)))"

text \<open>\<open>Number.isFinite(options.rainThresholdMm) ? options.rainThresholdMm : 1\<close>.\<close>

definition rainThreshold :: "metrics_options \<Rightarrow> jsnum" where
  "rainThreshold options =
     (if isFiniteVal (rainThresholdMm options) then toNumber (rainThresholdMm options) else Fin 1)"

definition calculateMetricsAndCharts :: "merged_row list \<Rightarrow> metrics_options \<Rightarrow> error + metrics" where
  "calculateMetricsAndCharts mergedRows options =
     (let threshold = rainThreshold options
      in
      if mergedRows = [] then
        Inl (makeError ''MERGE_NO_ROWS'' ''No merged data to calculate metrics.'' None None)
      else
        let rows = sort_key m_date_iso mergedRows;
            temperatures = sort_key finVal
              (map toNumber (filter isFiniteVal (map m_temperature_c rows)));
            p25 = percentile temperatures (1 / 4);
            p75 = percentile temperatures (3 / 4);
            warnings = (if length rows < 7
                        then [''Dataset is shorter than 7 days; some metrics may be unstable.'']
                        else []);
            ordersSeries = map (\<lambda>r. toNumber (m_total_orders r)) rows;
            movingAvg7 = computeMovingAverage ordersSeries 7;
            enriched = map (enrich threshold p25 p75) (zip rows movingAvg7);
            totalSum = foldl (\<lambda>s r. jsAdd s (if isFiniteVal (m_total_orders r)
                                            then toNumber (m_total_orders r) else Fin 0))
                      (Fin 0) enriched;
            avgPerDay = jsDiv totalSum (Fin (real (length enriched)));
            imputedCount = length (filter m_imputed_weather enriched);
            imputedPct = jsDiv (Fin (real imputedCount)) (Fin (real (length enriched)));
            maxOrdersRow = pickRow jsGreater m_total_orders enriched;
            minOrdersRow = pickRow jsLess m_total_orders enriched;
            hottestRow = pickRow jsGreater m_temperature_c enriched;
            coldestRow = pickRow jsLess m_temperature_c enriched;
            rainyOrders = map m_total_orders (filter is_rainy enriched);
            nonRainyOrders = map m_total_orders (filter (\<lambda>r. \<not> is_rainy r) enriched);
            rainyAvg0 = safeAverage rainyOrders;
            nonRainyAvg0 = safeAverage nonRainyOrders;
            pctIncrease = (if nonRainyAvg0 \<noteq> JNull \<and> nonRainyAvg0 \<noteq> JNum (Fin 0)
                              \<and> rainyAvg0 \<noteq> JNull
                           then JNum (jsDiv (jsSub (toNumber rainyAvg0) (toNumber nonRainyAvg0))
                                        (toNumber nonRainyAvg0))
                           else JNull);
            tempLabel = (\<lambda>best. case best of
                           None \<Rightarrow> None
                         | Some b \<Rightarrow> if isFiniteVal (m_temperature_c b)
                                      then Some (m_date_iso b,
                                                 roundTo 10 (toNumber (m_temperature_c b)))
                                      else None)
        in (case dowLoop enriched (replicate 7 (0, Fin 0)) of
              None \<Rightarrow>
                Inl (makeError ''TypeError''
                  ''Cannot read properties of undefined (reading count)'' None None)
            | Some dowBuckets \<Rightarrow>
                let dayOfWeek0 = map (\<lambda>(b, i). \<lparr>dow = i, label = dayOfWeekLabel i, count = fst b,
                                    avg_orders = (if fst b \<noteq> 0
                                                  then JNum (jsDiv (snd b) (Fin (real (fst b))))
                                                  else JNull)\<rparr>)
                                  (zip dowBuckets [0..<length dowBuckets]);
                    sortedDow = sort_key (\<lambda>x. - finVal (toNumber (avg_orders x)))
                                  (filter (\<lambda>x. isFiniteVal (avg_orders x)) dayOfWeek0);
                    bestWeekday0 = (case sortedDow of
                                      [] \<Rightarrow> None
                                    | b # _ \<Rightarrow> Some (label b, roundTo 100 (toNumber (avg_orders b))));
                    tempXs = map (\<lambda>r. if isFiniteVal (m_temperature_c r)
                                       then m_temperature_c r else JNull) enriched;
                    orderYs = map (\<lambda>r. if isFiniteVal (m_total_orders r)
                                        then m_total_orders r else JNull) enriched;
                    corr = pearsonCorrelation tempXs orderYs;
                    corrRounded = roundOrNull 1000 corr;
                    k = \<lparr>totalOrders = mathRound totalSum,
                         avgOrdersPerDay = roundTo 100 avgPerDay,
                         rainyDayAvg = roundOrNull 100 rainyAvg0,
                         nonRainyDayAvg = roundOrNull 100 nonRainyAvg0,
                         percentIncrease = (if pctIncrease = JNull then JNull
                            else JNum (jsDiv (mathRound (jsMul (toNumber pctIncrease) (Fin 10000)))
                                         (Fin 100))),
                         rainyDays = length rainyOrders,
                         nonRainyDays = length nonRainyOrders,
                         imputedWeatherPct =
                           jsDiv (mathRound (jsMul imputedPct (Fin 10000))) (Fin 100),
                         maxOrdersDay = map_option (\<lambda>b. (m_date_iso b, m_total_orders b))
                                          maxOrdersRow,
                         minOrdersDay = map_option (\<lambda>b. (m_date_iso b, m_total_orders b))
                                          minOrdersRow,
                         hottestDay = tempLabel hottestRow,
                         coldestDay = tempLabel coldestRow,
                         bestWeekday = bestWeekday0,
                         tempOrderCorr = corrRounded\<rparr>;
                    c = \<lparr>ordersOverTime =
                           map (\<lambda>r. \<lparr>op_date_iso = m_date_iso r,
                                      op_total_orders = m_total_orders r,
                                      op_is_rainy = is_rainy r,
                                      op_moving_avg_7 = moving_avg_7 r\<rparr>) enriched,
                         weatherImpact =
                           \<lparr>rainyAvg = rainyDayAvg k, nonRainyAvg = nonRainyDayAvg k,
                            percentDifference = percentIncrease k,
                            wi_rainyDays = rainyDays k, wi_nonRainyDays = nonRainyDays k\<rparr>,
                         tempCorrelation =
                           map (\<lambda>r. \<lparr>tp_date_iso = m_date_iso r,
                                      tp_temperature_c = m_temperature_c r,
                                      tp_total_orders = m_total_orders r,
                                      tp_is_rainy = is_rainy r\<rparr>) enriched,
                         dayOfWeek = dayOfWeek0,
                         cd_tempOrderCorr = corrRounded,
                         tempBuckets = (p25, p75)\<rparr>
                in Inr \<lparr>m_kpis = k, m_chartData = c, m_warnings = warnings\<rparr>))"

section \<open>Tabular parser\<close>

































section \<open>Pipeline\<close>






text \<open>
  Fixtures for concrete runs: a host whose timestamp parser accepts nothing (it is only
  asked about strings that look like ISO timestamps), and the options the data loader
  passes for the orders file, over rows that are their date cell.
\<close>

definition noTimestampHost :: host where
  "noTimestampHost raw = None"

definition ordersOptions :: "string date_options" where
  "ordersOptions = \<lparr>dateKey = Some, sourceName = ''orders'', onMissingDate = Drop\<rparr>"

text \<open>Two small inputs of the merger: an order of zero, and a day between two weather days.\<close>

definition zeroOrders :: "order_row list" where
  "zeroOrders = [\<lparr>o_date_iso = Some ''2024-01-05'', o_total_orders = JNum (Fin 0)\<rparr>]"

definition oneWeather :: "weather_row list" where
  "oneWeather = [\<lparr>w_date_iso = Some ''2024-01-05'', w_temperature_c = JNum (Fin 20),
                  w_rainfall_mm = JNum (Fin 0), w_humidity_pct = JNull\<rparr>]"

definition gapOrders :: "order_row list" where
  "gapOrders = [\<lparr>o_date_iso = Some ''2024-03-01'', o_total_orders = JNum (Fin 40)\<rparr>,
                \<lparr>o_date_iso = Some ''2024-02-29'', o_total_orders = JNum (Fin 10)\<rparr>,
                \<lparr>o_date_iso = Some ''2024-03-01'', o_total_orders = JNum (Fin 2)\<rparr>]"

definition gapWeather :: "weather_row list" where
  "gapWeather = [\<lparr>w_date_iso = Some ''2024-03-02'', w_temperature_c = JNum (Fin 30),
                  w_rainfall_mm = JNum (Fin 5), w_humidity_pct = JNum (Fin 60)\<rparr>,
                 \<lparr>w_date_iso = Some ''2024-02-29'', w_temperature_c = JNum (Fin 12),
                  w_rainfall_mm = JNum (Fin 0), w_humidity_pct = JNull\<rparr>]"

definition defaultMerge :: merge_options where
  "defaultMerge = \<lparr>maxGapDays = None\<rparr>"

text \<open>Two orders of \<open>2 ^ 1023\<close> on one day, and the merged row they give with \<open>oneWeather\<close>.\<close>

definition overflowOrders :: "order_row list" where
  "overflowOrders = [\<lparr>o_date_iso = Some ''2024-01-05'', o_total_orders = JNum (Fin (2 ^ 1023))\<rparr>,
                     \<lparr>o_date_iso = Some ''2024-01-05'', o_total_orders = JNum (Fin (2 ^ 1023))\<rparr>]"

definition overflowRow :: merged_row where
  "overflowRow = \<lparr>m_date_iso = ''2024-01-05'', m_total_orders = JNum PosInf,
                  m_temperature_c = JNum (Fin 20), m_rainfall_mm = JNum (Fin 0),
                  m_humidity_pct = JNull, m_imputed_weather = False\<rparr>"

definition gapMerged :: "merged_row list" where
  "gapMerged =
     [\<lparr>m_date_iso = ''2024-02-29'', m_total_orders = JNum (Fin 10),
       m_temperature_c = JNum (Fin 12), m_rainfall_mm = JNum (Fin 0),
       m_humidity_pct = JNull, m_imputed_weather = False\<rparr>,
      \<lparr>m_date_iso = ''2024-03-01'', m_total_orders = JNum (Fin 42),
       m_temperature_c = JNum (Fin 12), m_rainfall_mm = JNum (Fin 0),
       m_humidity_pct = JNull, m_imputed_weather = True\<rparr>]"



text \<open>Single rows for the metrics engine, and its options: the default and a negative threshold.\<close>

definition dryRow :: merged_row where
  "dryRow = \<lparr>m_date_iso = ''2024-01-01'', m_total_orders = JNum (Fin 5),
             m_temperature_c = JNum (Fin 20), m_rainfall_mm = JNum (Fin 0),
             m_humidity_pct = JNull, m_imputed_weather = False\<rparr>"

definition missingRainRow :: merged_row where
  "missingRainRow = dryRow\<lparr>m_rainfall_mm := JUndefined\<rparr>"

definition nullRainRow :: merged_row where
  "nullRainRow = dryRow\<lparr>m_rainfall_mm := JNull\<rparr>"

definition defaultMetrics :: metrics_options where
  "defaultMetrics = \<lparr>rainThresholdMm = JUndefined\<rparr>"

definition negativeThreshold :: metrics_options where
  "negativeThreshold = \<lparr>rainThresholdMm = JNum (Fin (- 1))\<rparr>"









section \<open>Properties of the date normalizer\<close>

lemma length_ten:
  "length s = 10 \<Longrightarrow> \<exists>c0 c1 c2 c3 c4 c5 c6 c7 c8 c9. s = [c0, c1, c2, c3, c4, c5, c6, c7, c8, c9]"
  by (auto simp: numeral_eq_Suc length_Suc_conv)

lemma isDigit_not_other:
  "isDigit c \<Longrightarrow> \<not> isAlpha c \<and> \<not> isSpace c \<and> c \<noteq> CHR '','' \<and> c \<noteq> CHR ''-'' \<and> c \<noteq> CHR ''/''"
  by (auto simp: isDigit_def isAlpha_def isSpace_def)

text \<open>
  A string of the slash form is refused by the three parsers tried before
  \<open>parseSlashDate\<close>, so the chain decides it by \<open>parseSlashDate\<close> alone.
\<close>

lemma slash_parseAny:
  assumes "matchSlash s = Some t"
  shows "parseAny host s = parseSlashDate s"
proof -
  from assms have len: "length s = 10"
    by (simp add: matchSlash_def split: if_splits)
  then obtain c0 c1 c2 c3 c4 c5 c6 c7 c8 c9
    where s: "s = [c0, c1, c2, c3, c4, c5, c6, c7, c8, c9]"
    using length_ten [of s] by auto
  from assms s have d: "isDigit c0" "isDigit c1" "c2 = CHR ''/''" "isDigit c3" "isDigit c4"
      "c5 = CHR ''/''" "isDigit c6" "isDigit c7" "isDigit c8" "isDigit c9"
    by (simp_all add: matchSlash_def split: if_splits)
  have iso: "parseIsoDate s = None"
    using d isDigit_not_other [of c4] by (simp add: parseIsoDate_def matchIsoDate_def s)
  have ts: "parseIsoTimestamp host s = None"
    by (simp add: parseIsoTimestamp_def looksLikeIsoTs_def s)
  have tr: "trim s = s"
    using isDigit_not_other [of c0] isDigit_not_other [of c9] d by (simp add: trim_def s)
  have nocomma: "CHR '','' \<notin> set s"
    using d isDigit_not_other [of c0] isDigit_not_other [of c1] isDigit_not_other [of c3]
      isDigit_not_other [of c4] isDigit_not_other [of c6] isDigit_not_other [of c7]
      isDigit_not_other [of c8] isDigit_not_other [of c9]
    by (auto simp: s)
  have mm: "matchMonthName s = None"
    using isDigit_not_other [of c0] d by (simp add: matchMonthName_def s Let_def)
  have mn: "parseMonthNameDate s = None"
    using tr nocomma mm s by (simp add: parseMonthNameDate_def Let_def)
  show ?thesis
    by (simp add: parseAny_def iso ts mn)
qed


lemma normLoop_fails_by:
  assumes "j < length rows" "dateKey opts (rows ! j) = Some raw" "trim raw \<noteq> []"
    "parseAny host (trim raw) = Some Ambiguous"
  shows "\<exists>e k. normLoop host opts i rows (fa, no, dr) = Inl e \<and> rowIndex e = Some k
           \<and> i \<le> k \<and> k \<le> i + j \<and> (k = i + j \<longrightarrow> code e = ''DATE_AMBIGUOUS'')"
  using assms
proof (induction rows arbitrary: i j fa no dr)
  case Nil
  then show ?case by simp
next
  case (Cons r rest)
  show ?case
  proof (cases j)
    case 0
    with Cons.prems show ?thesis
      by (simp add: isMissing_def makeError_def Let_def)
  next
    case (Suc j')
    with Cons.prems have p: "j' < length rest" "dateKey opts (rest ! j') = Some raw"
      by simp_all
    have ih: "\<exists>e k. normLoop host opts (i + 1) rest (fa', no', dr') = Inl e \<and> rowIndex e = Some k
           \<and> i + 1 \<le> k \<and> k \<le> i + 1 + j' \<and> (k = i + 1 + j' \<longrightarrow> code e = ''DATE_AMBIGUOUS'')"
      for fa' no' dr'
      using Cons.IH [OF p Cons.prems(3) Cons.prems(4)] by blast
    show ?thesis
    proof (cases "isMissing (dateKey opts r)")
      case True
      show ?thesis
      proof (cases "onMissingDate opts = Drop")
        case d: True
        from ih [of fa no "dr + 1"] obtain e k
          where ek: "normLoop host opts (i + 1) rest (fa, no, dr + 1) = Inl e"
            "rowIndex e = Some k" "i + 1 \<le> k" "k \<le> i + 1 + j'"
            "k = i + 1 + j' \<longrightarrow> code e = ''DATE_AMBIGUOUS''"
          by blast
        have "normLoop host opts i (r # rest) (fa, no, dr) = Inl e"
          using True d ek(1) by simp
        with ek Suc show ?thesis
          by (intro exI [of _ e] exI [of _ k]) auto
      next
        case False
        with True Suc show ?thesis by (simp add: makeError_def)
      qed
    next
      case False
      then show ?thesis
      proof (cases "parseAny host (trim (case dateKey opts r of Some v \<Rightarrow> v | None \<Rightarrow> []))")
        case None
        with False Suc show ?thesis by (simp add: makeError_def Let_def)
      next
        case (Some p)
        show ?thesis
        proof (cases p)
          case (Parsed f d)
          define fa2 where "fa2 = (if f \<in> set fa then fa else fa @ [f])"
          define no2 where "no2 = no @ [\<lparr>row = r,
            date_raw = trim (case dateKey opts r of Some v \<Rightarrow> v | None \<Rightarrow> []), date_iso = d\<rparr>]"
          from ih [of fa2 no2 dr] obtain e k
            where ek: "normLoop host opts (i + 1) rest (fa2, no2, dr) = Inl e"
              "rowIndex e = Some k" "i + 1 \<le> k" "k \<le> i + 1 + j'"
              "k = i + 1 + j' \<longrightarrow> code e = ''DATE_AMBIGUOUS''"
            by blast
          have "normLoop host opts i (r # rest) (fa, no, dr) = Inl e"
            using Some False Parsed ek(1) by (simp add: Let_def fa2_def no2_def)
          with ek Suc show ?thesis
            by (intro exI [of _ e] exI [of _ k]) auto
        next
          case Invalid
          with Some False Suc show ?thesis by (simp add: makeError_def Let_def)
        next
          case Ambiguous
          with Some False Suc show ?thesis by (simp add: makeError_def Let_def)
        qed
      qed
    qed
  qed
qed

lemma normLoop_rows_parsed:
  assumes "normLoop host opts i rows (fa, no, dr) = Inr (fa', no', dr')"
    and "\<forall>r\<in>set no. \<exists>f. parseAny host (date_raw r) = Some (Parsed f (date_iso r))"
  shows "\<forall>r\<in>set no'. \<exists>f. parseAny host (date_raw r) = Some (Parsed f (date_iso r))"
  using assms
proof (induction rows arbitrary: i fa no dr)
  case Nil
  then show ?case by simp
next
  case (Cons r rest)
  show ?case
  proof (cases "isMissing (dateKey opts r)")
    case True
    with Cons.prems(1) have "normLoop host opts (i + 1) rest (fa, no, dr + 1) = Inr (fa', no', dr')"
      by (simp split: if_splits)
    from Cons.IH [OF this Cons.prems(2)] show ?thesis .
  next
    case False
    define s where "s = trim (case dateKey opts r of Some v \<Rightarrow> v | None \<Rightarrow> [])"
    from False Cons.prems(1) obtain f d where pa: "parseAny host s = Some (Parsed f d)"
      and rec: "normLoop host opts (i + 1) rest
          (if f \<in> set fa then fa else fa @ [f],
           no @ [\<lparr>row = r, date_raw = s, date_iso = d\<rparr>], dr) = Inr (fa', no', dr')"
      by (auto simp: Let_def s_def split: option.splits parsed.splits)
    have "\<forall>x\<in>set (no @ [\<lparr>row = r, date_raw = s, date_iso = d\<rparr>]).
            \<exists>f. parseAny host (date_raw x) = Some (Parsed f (date_iso x))"
      using Cons.prems(2) pa by auto
    from Cons.IH [OF rec this] show ?thesis .
  qed
qed

lemma normalize_rows_parsed:
  assumes "normalizeDatesInRows host rows opts = Some (Inr (out, ws))" "r \<in> set out"
  shows "\<exists>f. parseAny host (date_raw r) = Some (Parsed f (date_iso r))"
proof -
  from assms(1) obtain fa dr where "normLoop host opts 0 rows ([], [], 0) = Inr (fa, out, dr)"
    by (auto simp: normalizeDatesInRows_def Let_def split: sum.splits if_splits option.splits)
  from normLoop_rows_parsed [OF this] assms(2) show ?thesis by simp
qed



text \<open>
  Claim C2, as the code has it. Let a value of the slash form (two digits, slash, two
  digits, slash, four digits) have the numeric tokens \<open>m1\<close> and \<open>m2\<close>. If both tokens lie
  between 1 and 12 and the value stands in row \<open>j\<close> of a batch, the batch fails, at row
  \<open>j\<close> or before it, and a failure at row \<open>j\<close> has the code \<open>DATE_AMBIGUOUS\<close>. If exactly
  one token exceeds 12, every normalized row that came from the value has that token as
  its day and the other as its month. A token \<open>00\<close> is outside the first part: such a
  value fails as \<open>DATE_INVALID\<close>.
\<close>

theorem slash_date_disambiguation:
  assumes "matchSlash s = Some (m1, m2, m3)"
  shows "(1 \<le> digitsToNat m1 \<and> digitsToNat m1 \<le> 12 \<and> 1 \<le> digitsToNat m2 \<and> digitsToNat m2 \<le> 12
            \<and> j < length rows \<and> dateKey opts (rows ! j) = Some raw \<and> trim raw = s
          \<longrightarrow> (\<exists>e k. normalizeDatesInRows host rows opts = Some (Inl e) \<and> rowIndex e = Some k
                  \<and> k \<le> j \<and> (k = j \<longrightarrow> code e = ''DATE_AMBIGUOUS'')))
       \<and> (normalizeDatesInRows host rows opts = Some (Inr (out, ws)) \<and> r \<in> set out
            \<and> date_raw r = s \<and> 12 < digitsToNat m1 \<and> digitsToNat m2 \<le> 12
          \<longrightarrow> date_iso r = toIsoDateFromParts (int (digitsToNat m3)) (int (digitsToNat m2))
                 (int (digitsToNat m1)))
       \<and> (normalizeDatesInRows host rows opts = Some (Inr (out, ws)) \<and> r \<in> set out
            \<and> date_raw r = s \<and> 12 < digitsToNat m2 \<and> digitsToNat m1 \<le> 12
          \<longrightarrow> date_iso r = toIsoDateFromParts (int (digitsToNat m3)) (int (digitsToNat m1))
                 (int (digitsToNat m2)))"
proof (intro conjI impI)
  assume a: "1 \<le> digitsToNat m1 \<and> digitsToNat m1 \<le> 12 \<and> 1 \<le> digitsToNat m2 \<and> digitsToNat m2 \<le> 12
      \<and> j < length rows \<and> dateKey opts (rows ! j) = Some raw \<and> trim raw = s"
  have amb: "parseAny host (trim raw) = Some Ambiguous"
    using a assms slash_parseAny [OF assms, of host]
    by (simp add: parseSlashDate_def Let_def)
  have ne: "trim raw \<noteq> []"
    using a assms by (auto simp: matchSlash_def)
  from normLoop_fails_by [of j rows opts raw host 0 "[]" "[]" 0] a amb ne
  obtain e k where "normLoop host opts 0 rows ([], [], 0) = Inl e" "rowIndex e = Some k"
      "k \<le> j" "k = j \<longrightarrow> code e = ''DATE_AMBIGUOUS''"
    by auto
  then show "\<exists>e k. normalizeDatesInRows host rows opts = Some (Inl e) \<and> rowIndex e = Some k
      \<and> k \<le> j \<and> (k = j \<longrightarrow> code e = ''DATE_AMBIGUOUS'')"
    by (auto simp: normalizeDatesInRows_def)
next
  assume a: "normalizeDatesInRows host rows opts = Some (Inr (out, ws)) \<and> r \<in> set out
      \<and> date_raw r = s \<and> 12 < digitsToNat m1 \<and> digitsToNat m2 \<le> 12"
  then obtain f where "parseAny host s = Some (Parsed f (date_iso r))"
    using normalize_rows_parsed [of host rows opts out ws r] by auto
  then have "parseSlashDate s = Some (Parsed f (date_iso r))"
    using slash_parseAny [OF assms, of host] by simp
  with a assms show "date_iso r = toIsoDateFromParts (int (digitsToNat m3))
      (int (digitsToNat m2)) (int (digitsToNat m1))"
    by (simp add: parseSlashDate_def Let_def split: if_splits)
next
  assume a: "normalizeDatesInRows host rows opts = Some (Inr (out, ws)) \<and> r \<in> set out
      \<and> date_raw r = s \<and> 12 < digitsToNat m2 \<and> digitsToNat m1 \<le> 12"
  then obtain f where "parseAny host s = Some (Parsed f (date_iso r))"
    using normalize_rows_parsed [of host rows opts out ws r] by auto
  then have "parseSlashDate s = Some (Parsed f (date_iso r))"
    using slash_parseAny [OF assms, of host] by simp
  with a assms show "date_iso r = toIsoDateFromParts (int (digitsToNat m3))
      (int (digitsToNat m1)) (int (digitsToNat m2))"
    by (simp add: parseSlashDate_def Let_def split: if_splits)
qed

text \<open>The theorem at three concrete batches: an ambiguous value, a day-first and a month-first one.\<close>

theorem slash_date_disambiguation_witness:
  "matchSlash ''01/02/2024'' = Some (''01'', ''02'', ''2024'')
   \<and> (\<exists>e k. normalizeDatesInRows noTimestampHost [''01/02/2024''] ordersOptions = Some (Inl e)
          \<and> rowIndex e = Some k \<and> k \<le> 0 \<and> (k = 0 \<longrightarrow> code e = ''DATE_AMBIGUOUS''))
   \<and> matchSlash ''13/01/2024'' = Some (''13'', ''01'', ''2024'')
   \<and> date_iso \<lparr>row = ''13/01/2024'', date_raw = ''13/01/2024'', date_iso = ''2024-01-13''\<rparr>
       = toIsoDateFromParts (int (digitsToNat ''2024'')) (int (digitsToNat ''01''))
           (int (digitsToNat ''13''))
   \<and> matchSlash ''01/13/2024'' = Some (''01'', ''13'', ''2024'')
   \<and> date_iso \<lparr>row = ''01/13/2024'', date_raw = ''01/13/2024'', date_iso = ''2024-01-13''\<rparr>
       = toIsoDateFromParts (int (digitsToNat ''2024'')) (int (digitsToNat ''01''))
           (int (digitsToNat ''13''))"
proof -
  have m1: "matchSlash ''01/02/2024'' = Some (''01'', ''02'', ''2024'')"
    by code_simp
  have h1: "1 \<le> digitsToNat ''01'' \<and> digitsToNat ''01'' \<le> 12 \<and> 1 \<le> digitsToNat ''02''
      \<and> digitsToNat ''02'' \<le> 12 \<and> 0 < length [''01/02/2024'']
      \<and> dateKey ordersOptions ([''01/02/2024''] ! 0) = Some ''01/02/2024''
      \<and> trim ''01/02/2024'' = ''01/02/2024''"
    by code_simp
  have c1: "\<exists>e k. normalizeDatesInRows noTimestampHost [''01/02/2024''] ordersOptions = Some (Inl e)
      \<and> rowIndex e = Some k \<and> k \<le> 0 \<and> (k = 0 \<longrightarrow> code e = ''DATE_AMBIGUOUS'')"
    using slash_date_disambiguation [OF m1, where j = 0 and rows = "[''01/02/2024'']"
        and opts = ordersOptions and raw = "''01/02/2024''" and host = noTimestampHost] h1
    by blast
  have m2: "matchSlash ''13/01/2024'' = Some (''13'', ''01'', ''2024'')"
    by code_simp
  have h2: "normalizeDatesInRows noTimestampHost [''13/01/2024''] ordersOptions =
      Some (Inr ([\<lparr>row = ''13/01/2024'', date_raw = ''13/01/2024'', date_iso = ''2024-01-13''\<rparr>],
        [''Only 1 distinct dates found in orders. Some metrics may be limited.'']))"
    by code_simp
  have g2: "12 < digitsToNat ''13'' \<and> digitsToNat ''01'' \<le> 12"
    by code_simp
  have c2: "date_iso \<lparr>row = ''13/01/2024'', date_raw = ''13/01/2024'', date_iso = ''2024-01-13''\<rparr>
      = toIsoDateFromParts (int (digitsToNat ''2024'')) (int (digitsToNat ''01''))
          (int (digitsToNat ''13''))"
    using slash_date_disambiguation [OF m2, where host = noTimestampHost
        and rows = "[''13/01/2024'']" and opts = ordersOptions
        and out = "[\<lparr>row = ''13/01/2024'', date_raw = ''13/01/2024'', date_iso = ''2024-01-13''\<rparr>]"
        and ws = "[''Only 1 distinct dates found in orders. Some metrics may be limited.'']"
        and r = "\<lparr>row = ''13/01/2024'', date_raw = ''13/01/2024'', date_iso = ''2024-01-13''\<rparr>"]
      h2 g2
    by simp
  have m3: "matchSlash ''01/13/2024'' = Some (''01'', ''13'', ''2024'')"
    by code_simp
  have h3: "normalizeDatesInRows noTimestampHost [''01/13/2024''] ordersOptions =
      Some (Inr ([\<lparr>row = ''01/13/2024'', date_raw = ''01/13/2024'', date_iso = ''2024-01-13''\<rparr>],
        [''Only 1 distinct dates found in orders. Some metrics may be limited.'']))"
    by code_simp
  have c3: "date_iso \<lparr>row = ''01/13/2024'', date_raw = ''01/13/2024'', date_iso = ''2024-01-13''\<rparr>
      = toIsoDateFromParts (int (digitsToNat ''2024'')) (int (digitsToNat ''01''))
          (int (digitsToNat ''13''))"
    using slash_date_disambiguation [OF m3, where host = noTimestampHost
        and rows = "[''01/13/2024'']" and opts = ordersOptions
        and out = "[\<lparr>row = ''01/13/2024'', date_raw = ''01/13/2024'', date_iso = ''2024-01-13''\<rparr>]"
        and ws = "[''Only 1 distinct dates found in orders. Some metrics may be limited.'']"
        and r = "\<lparr>row = ''01/13/2024'', date_raw = ''01/13/2024'', date_iso = ''2024-01-13''\<rparr>"]
      h3 g2
    by simp
  from m1 c1 m2 c2 m3 c3 show ?thesis by blast
qed

text \<open>
  The claim as stated fails at \<open>00/05/2024\<close>: both tokens are at most 12, and the batch
  fails as \<open>DATE_INVALID\<close>, by the guard on tokens outside 1..31.
\<close>

theorem slash_zero_token_counterexample:
  "matchSlash ''00/05/2024'' = Some (''00'', ''05'', ''2024'')
   \<and> digitsToNat ''00'' \<le> 12 \<and> digitsToNat ''05'' \<le> 12
   \<and> normalizeDatesInRows noTimestampHost [''00/05/2024''] ordersOptions =
       Some (Inl \<lparr>code = ''DATE_INVALID'', message = ''Invalid date at row 1 in orders.'',
          rowIndex = Some 0, badValue = Some ''00/05/2024'', field = None, listed = []\<rparr>)"
  by code_simp

text \<open>
  Claim C3. The month-name form is to accept a comma before the year, as in
  \<open>September 10, 2024\<close>. The code cuts the value at its first comma, which here leaves
  only the year, and the batch fails as an unrecognized date.
\<close>

theorem comma_before_year_rejected:
  "normalizeDatesInRows noTimestampHost [''September 10, 2024''] ordersOptions =
     Some (Inl \<lparr>code = ''DATE_INVALID'',
        message = ''Unrecognized date format at row 1 in orders.'',
        rowIndex = Some 0, badValue = Some ''September 10, 2024'', field = None, listed = []\<rparr>)"
  by code_simp

text \<open>The forms of the month-name family that the code does accept.\<close>

lemma month_name_accepted:
  "parseMonthNameDate ''11:38 PM, September 10 2024'' = Some (Parsed Month_name ''2024-09-10'')"
  "parseMonthNameDate ''11:38 PM, September 10, 2024'' = Some (Parsed Month_name ''2024-09-10'')"
  "parseMonthNameDate ''September 10 2024'' = Some (Parsed Month_name ''2024-09-10'')"
  "parseMonthNameDate ''Sep 10 2024'' = Some (Parsed Month_name ''2024-09-10'')"
  by code_simp+

text \<open>
  Claim C4. A slash value whose tokens fail the calendar check is to fail as
  \<open>DATE_INVALID\<close>. With both tokens above 12 neither reading has a month, and the code
  reports \<open>DATE_AMBIGUOUS\<close>.
\<close>

theorem both_tokens_above_12_ambiguous:
  "\<not> isValidYmd 2024 13 13
   \<and> normalizeDatesInRows noTimestampHost [''13/13/2024''] ordersOptions =
       Some (Inl \<lparr>code = ''DATE_AMBIGUOUS'', message = ''Ambiguous date at row 1 in orders.'',
          rowIndex = Some 0, badValue = Some ''13/13/2024'', field = None, listed = []\<rparr>)"
  by code_simp

text \<open>
  The other slash values that fail the calendar check do fail as invalid: a token
  outside 1..31, and a single token above 12 whose reading is no calendar date.
\<close>

lemma slash_invalid_cases:
  assumes "matchSlash s = Some (m1, m2, m3)"
  shows "digitsToNat m1 < 1 \<or> 31 < digitsToNat m1 \<or> digitsToNat m2 < 1 \<or> 31 < digitsToNat m2
           \<Longrightarrow> parseAny host s = Some Invalid"
    and "12 < digitsToNat m1 \<Longrightarrow> digitsToNat m2 \<le> 12
           \<Longrightarrow> \<not> isValidYmd (int (digitsToNat m3)) (int (digitsToNat m2)) (int (digitsToNat m1))
           \<Longrightarrow> parseAny host s = Some Invalid"
    and "12 < digitsToNat m2 \<Longrightarrow> digitsToNat m1 \<le> 12
           \<Longrightarrow> \<not> isValidYmd (int (digitsToNat m3)) (int (digitsToNat m1)) (int (digitsToNat m2))
           \<Longrightarrow> parseAny host s = Some Invalid"
    and "12 < digitsToNat m1 \<Longrightarrow> digitsToNat m1 \<le> 31 \<Longrightarrow> 12 < digitsToNat m2
           \<Longrightarrow> digitsToNat m2 \<le> 31 \<Longrightarrow> parseAny host s = Some Ambiguous"
  using assms slash_parseAny [OF assms, of host]
  by (auto simp: parseSlashDate_def Let_def)

section \<open>Properties of the double rounding\<close>

lemma toDouble_not_NaN: "toDouble x \<noteq> NaN"
  by (simp add: toDouble_def Let_def infOfSign_def)

lemma binExp_nonneg: "1 \<le> a \<Longrightarrow> 0 \<le> binExp a"
proof (induction a rule: binExp.induct)
  case (1 a)
  show ?case
  proof (cases "2 \<le> a")
    case True
    with "1.IH"(1) show ?thesis
      by (simp add: binExp.simps [of a])
  next
    case False
    with "1.prems" show ?thesis
      by (simp add: binExp.simps [of a])
  qed
qed

lemma binExp_ge: "2 ^ n \<le> a \<Longrightarrow> int n \<le> binExp a"
proof (induction n arbitrary: a)
  case 0
  then show ?case
    using binExp_nonneg [of a] by simp
next
  case (Suc n)
  then have "2 ^ n \<le> a / 2"
    by simp
  from Suc.IH [OF this] have "int n \<le> binExp (a / 2)" .
  moreover have "(1::real) \<le> 2 ^ n"
    by simp
  then have "(2::real) \<le> 2 * 2 ^ n"
    by linarith
  moreover from Suc.prems have "2 * 2 ^ n \<le> a"
    by simp
  ultimately have "int n \<le> binExp (a / 2)" "2 \<le> a"
    by linarith+
  then show ?case
    by (simp add: binExp.simps [of a])
qed

lemma binExp_pow: "binExp (2 ^ n) = int n"
proof (induction n)
  case 0
  show ?case
    by (simp add: binExp.simps [of 1])
next
  case (Suc n)
  have "(1::real) \<le> 2 ^ n"
    by simp
  then have "(2::real) \<le> 2 * 2 ^ n"
    by linarith
  with Suc show ?case
    by (simp add: binExp.simps [of "2 * 2 ^ n"])
qed

text \<open>A sum of \<open>2 ^ 1024\<close> or more overflows, and \<open>2 ^ 1023\<close> is a double.\<close>

lemma toDouble_overflow: "2 ^ 1024 \<le> x \<Longrightarrow> toDouble x = PosInf"
proof -
  assume x: "2 ^ 1024 \<le> x"
  have "(0::real) < 2 ^ 1024"
    by simp
  with x have p: "0 < x"
    by linarith
  with x have "2 ^ 1024 \<le> \<bar>x\<bar>"
    by simp
  from binExp_ge [OF this] have "1024 \<le> binExp \<bar>x\<bar>"
    by simp
  with p show ?thesis
    by (simp add: toDouble_def Let_def infOfSign_def)
qed

lemma toDouble_top: "toDouble (2 ^ 1023) = Fin (2 ^ 1023)"
proof -
  have e: "binExp \<bar>2 ^ 1023\<bar> = 1023"
    using binExp_pow [of 1023] by simp
  have q: "(2::real) ^ 1023 / pow2 (1023 - 52) = 2 ^ 52"
    by (simp add: pow2_def power_diff [symmetric])
  have r: "roundHalfEven (2 ^ 52) = 2 ^ 52"
    by (simp add: roundHalfEven_def Let_def)
  have m: "of_int (2 ^ 52) * pow2 (1023 - 52) = (2::real) ^ 1023"
    by (simp add: pow2_def power_add [symmetric])
  show ?thesis
    unfolding toDouble_def Let_def e
    using q r m by simp
qed

section \<open>Properties of the merger\<close>


lemma ordersLoop_distinct:
  "distinct (map fst byDate) \<Longrightarrow> distinct (map fst (ordersLoop rs byDate))"
  by (induction rs arbitrary: byDate)
     (auto simp: Let_def distinct_update split: option.splits)

lemma ordersLoop_keys:
  "set (map fst (ordersLoop rs byDate)) = set (map fst byDate) \<union> {d. \<exists>r\<in>set rs. countedOrder d r}"
proof (induction rs arbitrary: byDate)
  case Nil
  then show ?case by simp
next
  case (Cons r rs)
  show ?case
  proof (cases "truthyDate (o_date_iso r)")
    case None
    then have "\<And>d. \<not> countedOrder d r"
      by (auto simp: countedOrder_def truthyDate_def split: option.splits if_splits)
    with None Cons.IH show ?thesis by auto
  next
    case (Some dateIso)
    then have d: "o_date_iso r = Some dateIso" "dateIso \<noteq> []"
      by (auto simp: truthyDate_def split: option.splits if_splits)
    show ?thesis
    proof (cases "numIsFinite (toNumber (o_total_orders r))")
      case True
      with d have "\<And>x. countedOrder x r \<longleftrightarrow> x = dateIso"
        by (auto simp: countedOrder_def)
      with True Some Cons.IH show ?thesis
        by (auto simp: Let_def dom_update)
    next
      case False
      then have "\<And>x. \<not> countedOrder x r"
        by (auto simp: countedOrder_def)
      with False Some Cons.IH show ?thesis by (auto simp: Let_def)
    qed
  qed
qed

lemma ordersLoop_value:
  "map_of (ordersLoop rs byDate) d =
     (if \<exists>r\<in>set rs. countedOrder d r
      then Some (foldl jsAdd (case map_of byDate d of None \<Rightarrow> Fin 0 | Some v \<Rightarrow> v)
                   (map (\<lambda>r. toNumber (o_total_orders r)) (filter (countedOrder d) rs)))
      else map_of byDate d)"
proof (induction rs arbitrary: byDate)
  case Nil
  then show ?case by simp
next
  case (Cons r rs)
  show ?case
  proof (cases "truthyDate (o_date_iso r)")
    case None
    then have "\<And>d. \<not> countedOrder d r"
      by (auto simp: countedOrder_def truthyDate_def split: option.splits if_splits)
    with None Cons.IH show ?thesis by simp
  next
    case (Some dateIso)
    then have d: "o_date_iso r = Some dateIso" "dateIso \<noteq> []"
      by (auto simp: truthyDate_def split: option.splits if_splits)
    show ?thesis
    proof (cases "numIsFinite (toNumber (o_total_orders r))")
      case True
      with d have c: "\<And>x. countedOrder x r \<longleftrightarrow> x = dateIso"
        by (auto simp: countedOrder_def)
      show ?thesis
        using True Some Cons.IH c
        by (auto simp: Let_def update_conv' split: option.splits)
    next
      case False
      then have "\<And>x. \<not> countedOrder x r"
        by (auto simp: countedOrder_def)
      with False Some Cons.IH show ?thesis by (simp add: Let_def)
    qed
  qed
qed

lemma aggregateOrdersDaily_dates:
  "sorted (map d_date_iso (aggregateOrdersDaily orderRows))"
  "distinct (map d_date_iso (aggregateOrdersDaily orderRows))"
  "set (map d_date_iso (aggregateOrdersDaily orderRows)) = {d. \<exists>r\<in>set orderRows. countedOrder d r}"
proof -
  have m: "map d_date_iso (aggregateOrdersDaily orderRows) = sort (map fst (ordersLoop orderRows []))"
    by (simp add: aggregateOrdersDaily_def Let_def comp_def)
  show "sorted (map d_date_iso (aggregateOrdersDaily orderRows))"
    unfolding m by simp
  show "distinct (map d_date_iso (aggregateOrdersDaily orderRows))"
    unfolding m using ordersLoop_distinct [of "[]" orderRows] by simp
  show "set (map d_date_iso (aggregateOrdersDaily orderRows)) = {d. \<exists>r\<in>set orderRows. countedOrder d r}"
    unfolding m using ordersLoop_keys [of orderRows "[]"] by simp
qed

lemma aggregateOrdersDaily_total:
  assumes "o1 \<in> set (aggregateOrdersDaily orderRows)"
  shows "d_total_orders o1 = orderSum (d_date_iso o1) orderRows"
    and "\<exists>r\<in>set orderRows. countedOrder (d_date_iso o1) r"
proof -
  from assms obtain d where d: "d \<in> set (map fst (ordersLoop orderRows []))"
    and o1: "o1 = \<lparr>d_date_iso = d, d_total_orders =
        (case map_of (ordersLoop orderRows []) d of None \<Rightarrow> Fin 0 | Some v \<Rightarrow> v)\<rparr>"
    by (auto simp: aggregateOrdersDaily_def Let_def)
  from d have c: "\<exists>r\<in>set orderRows. countedOrder d r"
    using ordersLoop_keys [of orderRows "[]"] by auto
  then show "\<exists>r\<in>set orderRows. countedOrder (d_date_iso o1) r"
    by (simp add: o1)
  show "d_total_orders o1 = orderSum (d_date_iso o1) orderRows"
    using c by (simp add: o1 ordersLoop_value orderSum_def)
qed



lemma mergeLoop_dates:
  "map m_date_iso (fst (mergeLoop W g os (m, w))) =
     map m_date_iso m @ filter (\<lambda>d. findNearestWeather d W g \<noteq> NotFound) (map d_date_iso os)"
  by (induction os arbitrary: m w) (auto simp: Let_def split: nearest.splits)

lemma mergeLoop_rows:
  "r \<in> set (fst (mergeLoop W g os (m, w))) \<Longrightarrow>
     r \<in> set m \<or>
     (\<exists>o1\<in>set os. \<exists>wd imp. findNearestWeather (d_date_iso o1) W g = Found wd imp
        \<and> r = \<lparr>m_date_iso = d_date_iso o1, m_total_orders = JNum (d_total_orders o1),
               m_temperature_c = dw_temperature_c wd, m_rainfall_mm = dw_rainfall_mm wd,
               m_humidity_pct = dw_humidity_pct wd, m_imputed_weather = imp\<rparr>)"
proof (induction os arbitrary: m w)
  case Nil
  then show ?case by simp
next
  case (Cons o1 os)
  show ?case
  proof (cases "findNearestWeather (d_date_iso o1) W g")
    case NotFound
    with Cons.prems have "r \<in> set (fst (mergeLoop W g os (m, w @
        [''Weather could not be imputed for '' @ d_date_iso o1 @ '' within ''
           @ showInt g @ '' days. Dropping row.''])))"
      by (simp add: Let_def)
    from Cons.IH [OF this] show ?thesis by auto
  next
    case (Found wd imp)
    define row1 where "row1 = \<lparr>m_date_iso = d_date_iso o1,
      m_total_orders = JNum (d_total_orders o1),
      m_temperature_c = dw_temperature_c wd, m_rainfall_mm = dw_rainfall_mm wd,
      m_humidity_pct = dw_humidity_pct wd, m_imputed_weather = imp\<rparr>"
    from Found Cons.prems have "r \<in> set (fst (mergeLoop W g os (m @ [row1], w)))"
      by (simp add: Let_def row1_def)
    from Cons.IH [OF this] Found show ?thesis
      by (auto simp: row1_def)
  qed
qed

lemma merge_unfold:
  assumes "mergeOrdersWithWeather orderRows weatherRows options = Inr (rows, warnings)"
  shows "rows = fst (mergeLoop (aggregateWeatherDaily weatherRows)
            (case maxGapDays options of Some n \<Rightarrow> n | None \<Rightarrow> 3)
            (aggregateOrdersDaily orderRows) ([], []))"
proof -
  define g where "g = (case maxGapDays options of Some n \<Rightarrow> n | None \<Rightarrow> 3)"
  define W where "W = aggregateWeatherDaily weatherRows"
  define m0 where "m0 = fst (mergeLoop W g (aggregateOrdersDaily orderRows) ([], []))"
  have s: "sorted (map m_date_iso m0)"
    unfolding m0_def mergeLoop_dates
    using aggregateOrdersDaily_dates(1) [of orderRows] by (simp add: sorted_wrt_filter)
  have "rows = sort_key m_date_iso m0"
    using assms
    by (auto simp: mergeOrdersWithWeather_def Let_def g_def W_def m0_def
        split: prod.splits if_splits)
  also have "\<dots> = m0"
    using s by (rule sort_key_id_if_sorted)
  finally show ?thesis by (simp add: m0_def W_def g_def)
qed



lemma mergeLoop_concat:
  "fst (mergeLoop W g os (m, w)) =
     m @ concat (map (\<lambda>o1. case findNearestWeather (d_date_iso o1) W g of
                        NotFound \<Rightarrow> []
                      | Found wd imp \<Rightarrow>
                          [\<lparr>m_date_iso = d_date_iso o1,
                            m_total_orders = JNum (d_total_orders o1),
                            m_temperature_c = dw_temperature_c wd,
                            m_rainfall_mm = dw_rainfall_mm wd,
                            m_humidity_pct = dw_humidity_pct wd,
                            m_imputed_weather = imp\<rparr>]) os)"
  by (induction os arbitrary: m w) (auto simp: Let_def split: nearest.splits)





text \<open>
  Claim C1, as the code has it. For every output of \<open>mergeOrdersWithWeather\<close>: the dates
  of the output rows are the dates of the order aggregate that found weather, each once
  and in ascending order; every output date is the date of some counted order row, and
  the row carries the sum of the finite order values of its date, added as doubles in
  the order of the rows. That sum may be zero or negative, and an infinity where the
  addition overflows: the code has no test for a positive sum.
\<close>

theorem merge_anchor_invariant:
  assumes "mergeOrdersWithWeather orderRows weatherRows options = Inr (rows, warnings)"
  shows "map m_date_iso rows =
           filter (\<lambda>d. findNearestWeather d (aggregateWeatherDaily weatherRows)
                         (case maxGapDays options of Some n \<Rightarrow> n | None \<Rightarrow> 3) \<noteq> NotFound)
             (map d_date_iso (aggregateOrdersDaily orderRows))
         \<and> sorted (map m_date_iso rows) \<and> distinct (map m_date_iso rows)
         \<and> (\<forall>r\<in>set rows. (\<exists>o1\<in>set orderRows. countedOrder (m_date_iso r) o1)
               \<and> m_total_orders r = JNum (orderSum (m_date_iso r) orderRows))"
proof -
  define g where "g = (case maxGapDays options of Some n \<Rightarrow> n | None \<Rightarrow> 3)"
  define W where "W = aggregateWeatherDaily weatherRows"
  have rows: "rows = fst (mergeLoop W g (aggregateOrdersDaily orderRows) ([], []))"
    using merge_unfold [OF assms] by (simp add: g_def W_def)
  have dates: "map m_date_iso rows =
      filter (\<lambda>d. findNearestWeather d W g \<noteq> NotFound) (map d_date_iso (aggregateOrdersDaily orderRows))"
    unfolding rows mergeLoop_dates by simp
  have s: "sorted (map m_date_iso rows)"
    unfolding dates using aggregateOrdersDaily_dates(1) [of orderRows] by (simp add: sorted_wrt_filter)
  have ds: "distinct (map m_date_iso rows)"
    unfolding dates using aggregateOrdersDaily_dates(2) [of orderRows] by simp
  have tot: "(\<exists>o1\<in>set orderRows. countedOrder (m_date_iso r) o1)
      \<and> m_total_orders r = JNum (orderSum (m_date_iso r) orderRows)" if "r \<in> set rows" for r
  proof -
    from that rows mergeLoop_rows [of r W g "aggregateOrdersDaily orderRows" "[]" "[]"]
    obtain o1 where o1: "o1 \<in> set (aggregateOrdersDaily orderRows)"
      "m_date_iso r = d_date_iso o1" "m_total_orders r = JNum (d_total_orders o1)"
      by auto
    with aggregateOrdersDaily_total [OF o1(1)] show ?thesis by simp
  qed
  from dates s ds tot show ?thesis
    unfolding g_def W_def by blast
qed



text \<open>The theorem at a run of three order rows and two weather rows.\<close>

theorem merge_anchor_invariant_witness:
  "mergeOrdersWithWeather gapOrders gapWeather defaultMerge = Inr (gapMerged, [])
   \<and> map m_date_iso gapMerged =
       filter (\<lambda>d. findNearestWeather d (aggregateWeatherDaily gapWeather)
                     (case maxGapDays defaultMerge of Some n \<Rightarrow> n | None \<Rightarrow> 3) \<noteq> NotFound)
         (map d_date_iso (aggregateOrdersDaily gapOrders))
   \<and> sorted (map m_date_iso gapMerged) \<and> distinct (map m_date_iso gapMerged)
   \<and> gapMerged ! 1 \<in> set gapMerged
   \<and> (\<exists>o1\<in>set gapOrders. countedOrder (m_date_iso (gapMerged ! 1)) o1)
   \<and> m_total_orders (gapMerged ! 1) = JNum (orderSum (m_date_iso (gapMerged ! 1)) gapOrders)"
proof -
  have h: "mergeOrdersWithWeather gapOrders gapWeather defaultMerge = Inr (gapMerged, [])"
    by code_simp
  have m: "gapMerged ! 1 \<in> set gapMerged"
    by code_simp
  from merge_anchor_invariant [OF h] h m show ?thesis
    by blast
qed

text \<open>
  The claim as stated asks for a positive sum behind every output date. An order of
  zero is aggregated and merged like any other, so the output has a date whose sum is
  not positive.
\<close>

theorem zero_sum_order_counterexample:
  "mergeOrdersWithWeather zeroOrders oneWeather defaultMerge =
     Inr ([\<lparr>m_date_iso = ''2024-01-05'', m_total_orders = JNum (Fin 0),
             m_temperature_c = JNum (Fin 20), m_rainfall_mm = JNum (Fin 0),
             m_humidity_pct = JNull, m_imputed_weather = False\<rparr>], [])
   \<and> orderSum ''2024-01-05'' zeroOrders = Fin 0
   \<and> \<not> jsLess (Fin 0) (orderSum ''2024-01-05'' zeroOrders)"
  by code_simp






section \<open>Properties of the metrics engine\<close>


lemma enrich_fields:
  "m_total_orders (enrich t p q (r, ma)) = m_total_orders r"
  "m_date_iso (enrich t p q (r, ma)) = m_date_iso r"
  "m_temperature_c (enrich t p q (r, ma)) = m_temperature_c r"
  "is_rainy (enrich t p q (r, ma)) = isRainy t r"
  "day_of_week (enrich t p q (r, ma)) = map_option getDay (parseIsoToDate (m_date_iso r))"
  by (simp_all add: enrich_def merged_row.extend_def)

lemma maLoop_length: "length (maLoop vs w i s) = length vs - i"
proof (induction vs w i s rule: maLoop.induct)
  case (1 vs w i s)
  show ?case
  proof (cases "i < length vs")
    case True
    with "1.IH" [OF True refl refl] show ?thesis
      by (simp add: maLoop.simps [of vs w i s] Let_def)
  next
    case False
    then show ?thesis by (simp add: maLoop.simps [of vs w i s])
  qed
qed

lemma computeMovingAverage_length: "length (computeMovingAverage vs w) = length vs"
  by (simp add: computeMovingAverage_def maLoop_length)

lemma map_filter_zip_fst:
  "length xs = length ys \<Longrightarrow>
     map (\<lambda>p. f (fst p)) (filter (\<lambda>p. P (fst p)) (zip xs ys)) = map f (filter P xs)"
  by (induction xs ys rule: list_induct2) auto

lemma dowLoop_returns:
  "\<forall>r\<in>set rs. day_of_week r \<noteq> None \<Longrightarrow> \<exists>b. dowLoop rs buckets = Some b"
proof (induction rs arbitrary: buckets)
  case Nil
  then show ?case by simp
next
  case (Cons r rs)
  then obtain dw where "day_of_week r = Some dw" by auto
  with Cons show ?case
    by (cases "buckets ! dw") auto
qed



lemma enrich_pair:
  "m_total_orders (enrich t p q x) = m_total_orders (fst x)"
  "m_date_iso (enrich t p q x) = m_date_iso (fst x)"
  "m_temperature_c (enrich t p q x) = m_temperature_c (fst x)"
  "is_rainy (enrich t p q x) = isRainy t (fst x)"
  by (cases x; simp add: enrich_fields)+

lemma metrics_weather_kpis:
  assumes "mergedRows \<noteq> []" "\<forall>r\<in>set mergedRows. parseIsoToDate (m_date_iso r) \<noteq> None"
  shows "\<exists>res. calculateMetricsAndCharts mergedRows options = Inr res
     \<and> rainyDayAvg (m_kpis res) = roundOrNull 100 (safeAverage (map m_total_orders
           (filter (isRainy (rainThreshold options)) (sort_key m_date_iso mergedRows))))
     \<and> nonRainyDayAvg (m_kpis res) = roundOrNull 100 (safeAverage (map m_total_orders
           (filter (\<lambda>r. \<not> isRainy (rainThreshold options) r) (sort_key m_date_iso mergedRows))))
     \<and> (safeAverage (map m_total_orders
           (filter (isRainy (rainThreshold options)) (sort_key m_date_iso mergedRows))) = JNull
          \<longrightarrow> percentIncrease (m_kpis res) = JNull)
     \<and> rainyDays (m_kpis res)
          = length (filter (isRainy (rainThreshold options)) (sort_key m_date_iso mergedRows))
     \<and> nonRainyDays (m_kpis res)
          = length (filter (\<lambda>r. \<not> isRainy (rainThreshold options) r) (sort_key m_date_iso mergedRows))
     \<and> tempCorrelation (m_chartData res)
          = map (\<lambda>r. \<lparr>tp_date_iso = m_date_iso r, tp_temperature_c = m_temperature_c r,
                       tp_total_orders = m_total_orders r,
                       tp_is_rainy = isRainy (rainThreshold options) r\<rparr>)
              (sort_key m_date_iso mergedRows)"
proof -
  define t where "t = rainThreshold options"
  define rows where "rows = sort_key m_date_iso mergedRows"
  define temperatures where "temperatures = sort_key finVal
      (map toNumber (filter isFiniteVal (map m_temperature_c rows)))"
  define p25 where "p25 = percentile temperatures (1 / 4)"
  define p75 where "p75 = percentile temperatures (3 / 4)"
  define mas where "mas = computeMovingAverage (map (\<lambda>r. toNumber (m_total_orders r)) rows) 7"
  define enriched where "enriched = map (enrich t p25 p75) (zip rows mas)"
  have len: "length rows = length mas"
    by (simp add: mas_def computeMovingAverage_length)
  have "\<forall>r\<in>set enriched. day_of_week r \<noteq> None"
  proof
    fix e assume "e \<in> set enriched"
    then obtain r ma where "(r, ma) \<in> set (zip rows mas)" "e = enrich t p25 p75 (r, ma)"
      by (auto simp: enriched_def)
    then have "r \<in> set mergedRows" "e = enrich t p25 p75 (r, ma)"
      by (auto simp: rows_def dest: set_zip_leftD)
    with assms(2) show "day_of_week e \<noteq> None"
      by (auto simp: enrich_fields)
  qed
  then obtain b where b: "dowLoop enriched (replicate 7 (0, Fin 0)) = Some b"
    using dowLoop_returns by blast
  have fr: "filter is_rainy enriched
      = map (enrich t p25 p75) (filter (\<lambda>p. isRainy t (fst p)) (zip rows mas))"
    by (simp add: enriched_def filter_map comp_def enrich_pair)
  have fn: "filter (\<lambda>r. \<not> is_rainy r) enriched
      = map (enrich t p25 p75) (filter (\<lambda>p. \<not> isRainy t (fst p)) (zip rows mas))"
    by (simp add: enriched_def filter_map comp_def enrich_pair)
  have ro: "map m_total_orders (filter is_rainy enriched)
      = map m_total_orders (filter (isRainy t) rows)"
    unfolding fr using map_filter_zip_fst [OF len, of m_total_orders "isRainy t"]
    by (simp add: comp_def enrich_pair)
  have no: "map m_total_orders (filter (\<lambda>r. \<not> is_rainy r) enriched)
      = map m_total_orders (filter (\<lambda>r. \<not> isRainy t r) rows)"
    unfolding fn using map_filter_zip_fst [OF len, of m_total_orders "\<lambda>r. \<not> isRainy t r"]
    by (simp add: comp_def enrich_pair)
  have tc: "map (\<lambda>r. \<lparr>tp_date_iso = m_date_iso r, tp_temperature_c = m_temperature_c r,
        tp_total_orders = m_total_orders r, tp_is_rainy = is_rainy r\<rparr>) enriched
      = map (\<lambda>r. \<lparr>tp_date_iso = m_date_iso r, tp_temperature_c = m_temperature_c r,
        tp_total_orders = m_total_orders r, tp_is_rainy = isRainy t r\<rparr>) rows"
  proof -
    have "map (\<lambda>p. \<lparr>tp_date_iso = m_date_iso (fst p), tp_temperature_c = m_temperature_c (fst p),
        tp_total_orders = m_total_orders (fst p), tp_is_rainy = isRainy t (fst p)\<rparr>)
        (filter (\<lambda>p. True) (zip rows mas))
      = map (\<lambda>r. \<lparr>tp_date_iso = m_date_iso r, tp_temperature_c = m_temperature_c r,
        tp_total_orders = m_total_orders r, tp_is_rainy = isRainy t r\<rparr>) (filter (\<lambda>r. True) rows)"
      by (rule map_filter_zip_fst [OF len])
    then show ?thesis
      by (simp add: enriched_def comp_def enrich_pair)
  qed
  have lr: "length (filter is_rainy enriched) = length (filter (isRainy t) rows)"
    using arg_cong [OF ro, of length] by simp
  have ln: "length (filter (\<lambda>r. \<not> is_rainy r) enriched) = length (filter (\<lambda>r. \<not> isRainy t r) rows)"
    using arg_cong [OF no, of length] by simp
  show ?thesis
    using assms(1) b ro no tc lr ln
    unfolding enriched_def mas_def p25_def p75_def temperatures_def rows_def t_def
    by (simp add: calculateMetricsAndCharts_def Let_def roundOrNull_def)
qed



lemma isFiniteVal_Fin: "isFiniteVal v \<Longrightarrow> \<exists>x. v = JNum (Fin x)"
  by (cases v; simp) (metis numIsFinite.elims(2))

lemma jsAdd_not_NaN: "s \<noteq> NaN \<Longrightarrow> jsAdd s (Fin y) \<noteq> NaN"
  by (cases s) (simp_all add: toDouble_not_NaN)

lemma foldl_jsAdd_not_NaN:
  "\<forall>v\<in>set vs. isFiniteVal v \<Longrightarrow> s \<noteq> NaN \<Longrightarrow> foldl jsAdd s (map toNumber vs) \<noteq> NaN"
proof (induction vs arbitrary: s)
  case Nil
  then show ?case by simp
next
  case (Cons v vs)
  then obtain y where "v = JNum (Fin y)"
    using isFiniteVal_Fin [of v] by auto
  with Cons show ?case
    by (simp add: jsAdd_not_NaN)
qed

lemma jsDiv_not_NaN: "s \<noteq> NaN \<Longrightarrow> 0 < k \<Longrightarrow> jsDiv s (Fin k) \<noteq> NaN"
  by (cases s) (simp_all add: toDouble_not_NaN infOfSign_def)

lemma jsMul_not_NaN: "s \<noteq> NaN \<Longrightarrow> 0 < k \<Longrightarrow> jsMul s (Fin k) \<noteq> NaN"
  by (cases s) (simp_all add: toDouble_not_NaN infOfSign_def)

lemma mathRound_not_NaN: "s \<noteq> NaN \<Longrightarrow> mathRound s \<noteq> NaN"
  by (cases s) simp_all

lemma roundTo_not_NaN: "s \<noteq> NaN \<Longrightarrow> 0 < k \<Longrightarrow> roundTo k s \<noteq> NaN"
  by (simp add: roundTo_def jsDiv_not_NaN jsMul_not_NaN mathRound_not_NaN)

lemma safeAverage_number:
  assumes "\<exists>v\<in>set vs. isFiniteVal v"
  shows "\<exists>n. safeAverage vs = JNum n \<and> n \<noteq> NaN"
proof -
  from assms have ne: "filter isFiniteVal vs \<noteq> []"
    by (auto simp: filter_empty_conv)
  then have "0 < real (length (filter isFiniteVal vs))"
    by simp
  moreover have "foldl jsAdd (Fin 0) (map toNumber (filter isFiniteVal vs)) \<noteq> NaN"
    by (rule foldl_jsAdd_not_NaN) simp_all
  ultimately have "jsDiv (foldl jsAdd (Fin 0) (map toNumber (filter isFiniteVal vs)))
      (Fin (real (length (filter isFiniteVal vs)))) \<noteq> NaN"
    using jsDiv_not_NaN by blast
  with ne show ?thesis
    by (simp add: safeAverage_def Let_def)
qed

lemma safeAverage_null: "\<forall>v\<in>set vs. \<not> isFiniteVal v \<Longrightarrow> safeAverage vs = JNull"
  by (simp add: safeAverage_def Let_def filter_empty_conv)

lemma roundOrNull_number: "n \<noteq> NaN \<Longrightarrow> \<exists>m. roundOrNull 100 (JNum n) = JNum m \<and> m \<noteq> NaN"
  by (simp add: roundOrNull_def roundTo_not_NaN)

lemma rainThreshold_finite: "\<exists>t. rainThreshold options = Fin t"
  using isFiniteVal_Fin [of "rainThresholdMm options"]
  by (auto simp: rainThreshold_def)

text \<open>
  Claim C6, as the code has it. For every non-empty input of the metrics engine with
  well-formed dates in which no row is rainy and at least one row has a finite
  \<open>total_orders\<close>, the engine returns, and in its KPIs \<open>nonRainyDayAvg\<close> is a number
  other than NaN, the rounded average of the finite \<open>total_orders\<close> of all rows, while
  \<open>rainyDayAvg\<close> and \<open>percentIncrease\<close> are \<open>null\<close>. The average is computed in doubles,
  so it is an infinity where the sum or the rounding overflows.
\<close>

theorem all_non_rainy_averages:
  assumes "mergedRows \<noteq> []"
    and "\<forall>r\<in>set mergedRows. parseIsoToDate (m_date_iso r) \<noteq> None"
    and "\<forall>r\<in>set mergedRows. \<not> isRainy (rainThreshold options) r"
    and "\<exists>r\<in>set mergedRows. isFiniteVal (m_total_orders r)"
  shows "\<exists>res n. calculateMetricsAndCharts mergedRows options = Inr res
           \<and> nonRainyDayAvg (m_kpis res) = JNum n \<and> n \<noteq> NaN
           \<and> nonRainyDayAvg (m_kpis res)
                = roundOrNull 100 (safeAverage (map m_total_orders (sort_key m_date_iso mergedRows)))
           \<and> rainyDayAvg (m_kpis res) = JNull
           \<and> percentIncrease (m_kpis res) = JNull"
proof -
  let ?rows = "sort_key m_date_iso mergedRows"
  let ?t = "rainThreshold options"
  from assms(3) have r: "filter (isRainy ?t) ?rows = []"
    by (simp add: filter_empty_conv)
  from assms(3) have n: "filter (\<lambda>r. \<not> isRainy ?t r) ?rows = ?rows"
    by (simp add: filter_id_conv)
  from assms(4) obtain a where a: "safeAverage (map m_total_orders ?rows) = JNum a" "a \<noteq> NaN"
    using safeAverage_number [of "map m_total_orders ?rows"] by auto
  from a(2) obtain m where m: "roundOrNull 100 (JNum a) = JNum m" "m \<noteq> NaN"
    using roundOrNull_number by blast
  have e: "safeAverage [] = JNull"
    by (simp add: safeAverage_def)
  from metrics_weather_kpis [OF assms(1,2), of options] obtain res where
    res: "calculateMetricsAndCharts mergedRows options = Inr res"
      "rainyDayAvg (m_kpis res) = roundOrNull 100 (safeAverage (map m_total_orders
           (filter (isRainy ?t) ?rows)))"
      "nonRainyDayAvg (m_kpis res) = roundOrNull 100 (safeAverage (map m_total_orders
           (filter (\<lambda>r. \<not> isRainy ?t r) ?rows)))"
      "safeAverage (map m_total_orders (filter (isRainy ?t) ?rows)) = JNull
          \<longrightarrow> percentIncrease (m_kpis res) = JNull"
    by blast
  from res(2) r e have "rainyDayAvg (m_kpis res) = JNull"
    by (simp add: roundOrNull_def)
  moreover from res(4) r e have "percentIncrease (m_kpis res) = JNull"
    by simp
  moreover from res(3) n a m have "nonRainyDayAvg (m_kpis res) = JNum m"
    by simp
  moreover from res(3) n have "nonRainyDayAvg (m_kpis res)
      = roundOrNull 100 (safeAverage (map m_total_orders ?rows))"
    by simp
  ultimately show ?thesis
    using res(1) m(2) by blast
qed

text \<open>The theorem at a single dry day with five orders, whose average is 5.\<close>

theorem all_non_rainy_averages_witness:
  "[dryRow] \<noteq> [] \<and> parseIsoToDate (m_date_iso dryRow) \<noteq> None
   \<and> \<not> isRainy (rainThreshold defaultMetrics) dryRow \<and> isFiniteVal (m_total_orders dryRow)
   \<and> (\<exists>res. calculateMetricsAndCharts [dryRow] defaultMetrics = Inr res
          \<and> nonRainyDayAvg (m_kpis res) = JNum (Fin 5)
          \<and> rainyDayAvg (m_kpis res) = JNull
          \<and> percentIncrease (m_kpis res) = JNull)"
proof -
  have h: "parseIsoToDate (m_date_iso dryRow) \<noteq> None
      \<and> \<not> isRainy (rainThreshold defaultMetrics) dryRow \<and> isFiniteVal (m_total_orders dryRow)"
    by code_simp
  have e: "roundOrNull 100 (safeAverage (map m_total_orders (sort_key m_date_iso [dryRow])))
      = JNum (Fin 5)"
    by code_simp
  from all_non_rainy_averages [of "[dryRow]" defaultMetrics] h e show ?thesis
    by auto
qed

text \<open>
  The claim as stated fails on an output of the merger: two orders of \<open>2 ^ 1023\<close> on one
  day add up to \<open>Infinity\<close>, the merged row carries it as its \<open>total_orders\<close>, and
  \<open>safeAverage\<close> finds no finite value in the single row, which is not rainy, and
  returns \<open>null\<close> for \<open>nonRainyDayAvg\<close>.
\<close>

theorem overflowing_orders_average_counterexample:
  "mergeOrdersWithWeather overflowOrders oneWeather defaultMerge = Inr ([overflowRow], [])
   \<and> \<not> isRainy (rainThreshold defaultMetrics) overflowRow
   \<and> \<not> isl (calculateMetricsAndCharts [overflowRow] defaultMetrics)
   \<and> nonRainyDayAvg (m_kpis (projr (calculateMetricsAndCharts [overflowRow] defaultMetrics)))
       = JNull"
proof -
  have w: "aggregateWeatherDaily oneWeather
      = [(''2024-01-05'', \<lparr>dw_date_iso = ''2024-01-05'', dw_temperature_c = JNum (Fin 20),
           dw_rainfall_mm = JNum (Fin 0), dw_humidity_pct = JNull\<rparr>)]"
    by code_simp
  have s: "jsAdd (jsAdd (Fin 0) (Fin (2 ^ 1023))) (Fin (2 ^ 1023)) = PosInf"
    using toDouble_top toDouble_overflow [of "2 ^ 1023 + 2 ^ 1023"] by simp
  have o: "aggregateOrdersDaily overflowOrders
      = [\<lparr>d_date_iso = ''2024-01-05'', d_total_orders = PosInf\<rparr>]"
    unfolding aggregateOrdersDaily_def overflowOrders_def
    using s by (simp add: truthyDate_def Let_def del: jsAdd.simps)
  have m: "mergeOrdersWithWeather overflowOrders oneWeather defaultMerge = Inr ([overflowRow], [])"
    unfolding mergeOrdersWithWeather_def w o
    by (simp add: defaultMerge_def overflowRow_def findNearestWeather_def Let_def)
  have h: "parseIsoToDate (m_date_iso overflowRow) \<noteq> None
      \<and> \<not> isRainy (rainThreshold defaultMetrics) overflowRow"
    by code_simp
  have e: "roundOrNull 100 (safeAverage (map m_total_orders
      (filter (\<lambda>r. \<not> isRainy (rainThreshold defaultMetrics) r)
         (sort_key m_date_iso [overflowRow])))) = JNull"
    by code_simp
  from metrics_weather_kpis [of "[overflowRow]" defaultMetrics] h e m show ?thesis
    by auto
qed

text \<open>
  Claim C10, as the code has it. In a non-empty input with well-formed dates, a row
  whose \<open>rainfall_mm\<close> is no finite number is classified as not rainy, is counted among
  the non-rainy days, and its orders are among the values that \<open>nonRainyDayAvg\<close>
  averages; for a \<open>null\<close> rainfall this holds when the rain threshold is not negative,
  since \<open>null\<close> is read as 0.
\<close>

theorem non_finite_rainfall_non_rainy:
  assumes "mergedRows \<noteq> []"
    and "\<forall>x\<in>set mergedRows. parseIsoToDate (m_date_iso x) \<noteq> None"
    and "r \<in> set mergedRows"
    and "\<not> isFiniteVal (m_rainfall_mm r)"
    and "m_rainfall_mm r = JNull \<longrightarrow> 0 \<le> finVal (rainThreshold options)"
  shows "\<exists>res. calculateMetricsAndCharts mergedRows options = Inr res
           \<and> \<lparr>tp_date_iso = m_date_iso r, tp_temperature_c = m_temperature_c r,
               tp_total_orders = m_total_orders r, tp_is_rainy = False\<rparr>
                \<in> set (tempCorrelation (m_chartData res))
           \<and> r \<in> set (filter (\<lambda>x. \<not> isRainy (rainThreshold options) x)
                        (sort_key m_date_iso mergedRows))
           \<and> nonRainyDays (m_kpis res)
                = length (filter (\<lambda>x. \<not> isRainy (rainThreshold options) x)
                            (sort_key m_date_iso mergedRows))
           \<and> nonRainyDayAvg (m_kpis res)
                = roundOrNull 100 (safeAverage (map m_total_orders
                    (filter (\<lambda>x. \<not> isRainy (rainThreshold options) x)
                       (sort_key m_date_iso mergedRows))))"
proof -
  obtain t where t: "rainThreshold options = Fin t"
    using rainThreshold_finite by blast
  have nr: "\<not> isRainy (rainThreshold options) r"
  proof (cases "m_rainfall_mm r")
    case JUndefined
    then show ?thesis by (simp add: isRainy_def)
  next
    case JNull
    with assms(5) t show ?thesis by (simp add: isRainy_def jsGreater_def)
  next
    case (JNum n)
    with assms(4) show ?thesis by (simp add: isRainy_def)
  qed
  from metrics_weather_kpis [OF assms(1,2), of options] obtain res where
    res: "calculateMetricsAndCharts mergedRows options = Inr res"
      "nonRainyDayAvg (m_kpis res) = roundOrNull 100 (safeAverage (map m_total_orders
           (filter (\<lambda>r. \<not> isRainy (rainThreshold options) r) (sort_key m_date_iso mergedRows))))"
      "nonRainyDays (m_kpis res)
          = length (filter (\<lambda>r. \<not> isRainy (rainThreshold options) r) (sort_key m_date_iso mergedRows))"
      "tempCorrelation (m_chartData res)
          = map (\<lambda>r. \<lparr>tp_date_iso = m_date_iso r, tp_temperature_c = m_temperature_c r,
                       tp_total_orders = m_total_orders r,
                       tp_is_rainy = isRainy (rainThreshold options) r\<rparr>)
              (sort_key m_date_iso mergedRows)"
    by blast
  have "\<lparr>tp_date_iso = m_date_iso r, tp_temperature_c = m_temperature_c r,
      tp_total_orders = m_total_orders r, tp_is_rainy = False\<rparr>
      \<in> set (tempCorrelation (m_chartData res))"
    unfolding res(4) using assms(3) nr by force
  moreover have "r \<in> set (filter (\<lambda>x. \<not> isRainy (rainThreshold options) x)
      (sort_key m_date_iso mergedRows))"
    using assms(3) nr by simp
  ultimately show ?thesis
    using res by blast
qed


text \<open>The theorem at a row with a \<open>null\<close> rainfall beside one with none, under the default threshold of 1.\<close>

theorem non_finite_rainfall_non_rainy_witness:
  "[nullRainRow, missingRainRow] \<noteq> []
   \<and> parseIsoToDate (m_date_iso nullRainRow) \<noteq> None
   \<and> parseIsoToDate (m_date_iso missingRainRow) \<noteq> None
   \<and> \<not> isFiniteVal (m_rainfall_mm nullRainRow) \<and> m_rainfall_mm nullRainRow = JNull
   \<and> 0 \<le> finVal (rainThreshold defaultMetrics)
   \<and> (\<exists>res. calculateMetricsAndCharts [nullRainRow, missingRainRow] defaultMetrics = Inr res
          \<and> \<lparr>tp_date_iso = m_date_iso nullRainRow, tp_temperature_c = m_temperature_c nullRainRow,
              tp_total_orders = m_total_orders nullRainRow, tp_is_rainy = False\<rparr>
               \<in> set (tempCorrelation (m_chartData res))
          \<and> nonRainyDays (m_kpis res) = 2)"
proof -
  have h: "parseIsoToDate (m_date_iso nullRainRow) \<noteq> None
      \<and> parseIsoToDate (m_date_iso missingRainRow) \<noteq> None
      \<and> \<not> isFiniteVal (m_rainfall_mm nullRainRow) \<and> m_rainfall_mm nullRainRow = JNull
      \<and> 0 \<le> finVal (rainThreshold defaultMetrics)"
    by code_simp
  have e: "length (filter (\<lambda>x. \<not> isRainy (rainThreshold defaultMetrics) x)
      (sort_key m_date_iso [nullRainRow, missingRainRow])) = 2"
    by code_simp
  from non_finite_rainfall_non_rainy [of "[nullRainRow, missingRainRow]" nullRainRow defaultMetrics]
    h e show ?thesis
    by auto
qed

text \<open>
  The claim as stated fails for a \<open>null\<close> rainfall under a negative threshold:
  \<open>Number(null)\<close> is 0, which is finite and exceeds the threshold, so the row is rainy.
\<close>

theorem null_rainfall_negative_threshold_counterexample:
  "\<not> isFiniteVal (m_rainfall_mm nullRainRow)
   \<and> \<not> isl (calculateMetricsAndCharts [nullRainRow] negativeThreshold)
   \<and> map tp_is_rainy (tempCorrelation (m_chartData
        (projr (calculateMetricsAndCharts [nullRainRow] negativeThreshold)))) = [True]
   \<and> nonRainyDays (m_kpis (projr (calculateMetricsAndCharts [nullRainRow] negativeThreshold))) = 0"
proof -
  have h: "parseIsoToDate (m_date_iso nullRainRow) \<noteq> None
      \<and> \<not> isFiniteVal (m_rainfall_mm nullRainRow)"
    by code_simp
  have e: "map tp_is_rainy (map (\<lambda>r. \<lparr>tp_date_iso = m_date_iso r, tp_temperature_c = m_temperature_c r,
                       tp_total_orders = m_total_orders r,
                       tp_is_rainy = isRainy (rainThreshold negativeThreshold) r\<rparr>)
              (sort_key m_date_iso [nullRainRow])) = [True]
      \<and> length (filter (\<lambda>r. \<not> isRainy (rainThreshold negativeThreshold) r)
           (sort_key m_date_iso [nullRainRow])) = 0"
    by code_simp
  from metrics_weather_kpis [of "[nullRainRow]" negativeThreshold] h e show ?thesis
    by auto
qed


section \<open>Properties of the tabular parser\<close>















section \<open>Properties of the pipeline\<close>






end
